theory Spec2Isabelle
  imports Main "HOL-Library.Sublist"
begin

section \<open>The auction scraper: data model\<close>

text \<open>
  The program is one JavaScript module, \<^verbatim>\<open>auction-scraper.js\<close>. Its own code is
  embedded function by function. What it calls in libraries (the HTTP client, the HTML
  selector engine, the URL parser, the JSON parser and the spreadsheet client) is taken as
  a parameter, the record \<open>world\<close>: every library call is one field, and a call that throws
  answers \<open>None\<close> (or \<open>False\<close>). The world is a function of the call's arguments, so the same
  request is answered alike each time it is made.

  JavaScript strings are modelled as \<open>string\<close>, a list of bytes. A row is a JavaScript
  array of strings, modelled as \<open>string list\<close>.
\<close>

datatype js_error = TypeError | SyntaxError | Auth_failed | Request_failed

text \<open>
  Everything the program does to the outside is recorded as an event, in order: the lines
  it prints (one constructor per \<^verbatim>\<open>console.log\<close> or \<^verbatim>\<open>console.error\<close> of the source,
  holding the values the line interpolates) and the requests it sends.
\<close>

datatype event =
    Error_missing_credentials
  | Log_starting string
  | Log_scraping_page nat string
  | Http_get string
  | Error_on_page string js_error
  | Log_found nat string
  | Sheets_values_get
  | Sheets_values_append "string list list"
  | Log_added nat
  | Log_no_new

text \<open>How the process ends: \<^verbatim>\<open>process.exit(n)\<close>, an exception nobody catches, or the end
  of the module's code.\<close>

datatype ending = Process_exit nat | Uncaught js_error | Completed

text \<open>A site descriptor, as the objects of \<^verbatim>\<open>SITES\<close>. A property that an object may lack
  is an \<open>option\<close>: \<open>None\<close> is JavaScript's \<^verbatim>\<open>undefined\<close>. The fields carry the name
  of their object (\<open>site_url\<close> is \<^verbatim>\<open>site.url\<close>, \<open>title_sel\<close> is \<^verbatim>\<open>selectors.title\<close>,
  \<open>next_sel\<close> is \<^verbatim>\<open>pagination.next\<close>), which leaves the short names to the variables of
  the functions.\<close>

record selectors =
  item_sel :: "string option"
  title_sel :: "string option"
  date_sel :: "string option"
  location_sel :: "string option"
  category_sel :: "string option"
  description_sel :: "string option"
  link_sel :: "string option"

record pagination =
  next_sel :: "string option"
  limit :: "int option"

record site =
  site_name :: string
  site_url :: string
  site_selectors :: selectors
  site_pagination :: "pagination option"

record env =
  SHEET_ID :: "string option"
  GOOGLE_SERVICE_ACCOUNT_JSON :: "string option"

text \<open>
  The library calls. \<open>'h\<close> is a loaded document (\<^verbatim>\<open>cheerio.load(data)\<close>), \<open>'e\<close> an element.
  \<^item> \<open>json_parse_ok s\<close>: \<^verbatim>\<open>JSON.parse(s)\<close> returns.
  \<^item> \<open>auth_client\<close>: \<^verbatim>\<open>auth.getClient()\<close> returns (the library keeps the client it has made,
    so the call answers alike in both functions that make it).
  \<^item> \<open>sheets_get\<close>: \<^verbatim>\<open>values.get\<close>; \<open>None\<close> when the request throws, \<open>Some None\<close> when the
    answer has no \<^verbatim>\<open>values\<close>.
  \<^item> \<open>sheets_append rows\<close>: \<^verbatim>\<open>values.append\<close> returns.
  \<^item> \<open>axios_get u\<close>: the document loaded from \<^verbatim>\<open>axios.get(u)\<close>, \<open>None\<close> when that throws.
  \<^item> \<open>select doc sel\<close>: the elements of \<^verbatim>\<open>$(sel)\<close>.
  \<^item> \<open>find_text el sel\<close>: \<^verbatim>\<open>$(el).find(sel).text().trim()\<close>.
  \<^item> \<open>find_href el sel\<close>: \<^verbatim>\<open>$(el).find(sel).attr("href")\<close>.
  \<^item> \<open>doc_href doc sel\<close>: \<^verbatim>\<open>$(sel).attr("href")\<close>.
  \<^item> \<open>URL_href rel base\<close>: \<^verbatim>\<open>new URL(rel, base).href\<close>, \<open>None\<close> when the constructor throws.
\<close>

record ('h, 'e) world =
  json_parse_ok :: "string \<Rightarrow> bool"
  auth_client :: bool
  sheets_get :: "string list list option option"
  sheets_append :: "string list list \<Rightarrow> bool"
  axios_get :: "string \<Rightarrow> 'h option"
  select :: "'h \<Rightarrow> string option \<Rightarrow> 'e list"
  find_text :: "'e \<Rightarrow> string option \<Rightarrow> string"
  find_href :: "'e \<Rightarrow> string option \<Rightarrow> string option"
  doc_href :: "'h \<Rightarrow> string \<Rightarrow> string option"
  URL_href :: "string \<Rightarrow> string \<Rightarrow> string option"

text \<open>JavaScript's truthiness of a value that is a string or \<^verbatim>\<open>undefined\<close>, and of a
  number or \<^verbatim>\<open>undefined\<close>.\<close>

definition truthy :: "string option \<Rightarrow> bool" where
  "truthy v = (case v of None \<Rightarrow> False | Some s \<Rightarrow> s \<noteq> [])"

definition truthy_num :: "int option \<Rightarrow> bool" where
  "truthy_num v = (case v of None \<Rightarrow> False | Some n \<Rightarrow> n \<noteq> 0)"

text \<open>\<^verbatim>\<open>page < limit\<close> and \<^verbatim>\<open>page <= limit\<close> where the limit may be \<^verbatim>\<open>undefined\<close>: a comparison
  with \<^verbatim>\<open>undefined\<close> is false.\<close>

definition page_lt :: "nat \<Rightarrow> int option \<Rightarrow> bool" where
  "page_lt page l = (case l of None \<Rightarrow> False | Some n \<Rightarrow> int page < n)"

definition page_le :: "nat \<Rightarrow> int option \<Rightarrow> bool" where
  "page_le page l = (case l of None \<Rightarrow> False | Some n \<Rightarrow> int page \<le> n)"

text \<open>Indexing an array of strings inside a string concatenation: an index past the end
  reads \<^verbatim>\<open>undefined\<close>, which \<^verbatim>\<open>+\<close> prints as the word.\<close>

definition cell :: "string list \<Rightarrow> nat \<Rightarrow> string" where
  "cell row i = (if i < length row then row ! i else ''undefined'')"

text \<open>\<^verbatim>\<open>r[i] || ""\<close>: a missing cell reads as the empty string.\<close>

definition cell_or_empty :: "string list \<Rightarrow> nat \<Rightarrow> string" where
  "cell_or_empty r i = (if i < length r then r ! i else [])"

section \<open>The configuration\<close>

definition SITES :: "site list" where
  "SITES = [\<lparr> site_name = ''Example Auctions'',
               site_url = ''https://example.com/auctions'',
               site_selectors = \<lparr> item_sel = Some ''.auction-item'',
                              title_sel = Some ''.auction-title'',
                              date_sel = Some ''.auction-date'',
                              location_sel = Some ''.auction-location'',
                              category_sel = Some ''.auction-category'',
                              description_sel = Some ''.auction-description'',
                              link_sel = Some ''a'' \<rparr>,
               site_pagination = Some \<lparr> next_sel = Some ''.next-page a'', limit = Some 5 \<rparr> \<rparr>]"

section \<open>The spreadsheet\<close>

text \<open>The key of a stored row (line 47) and of a scraped row (line 130).\<close>

definition stored_key :: "string list \<Rightarrow> string" where
  "stored_key r = cell_or_empty r 0 @ ''|'' @ cell_or_empty r 5"

definition row_key :: "string list \<Rightarrow> string" where
  "row_key row = cell row 0 @ ''|'' @ cell row 5"

definition getExistingEntries ::
  "('h, 'e) world \<Rightarrow> event list \<times> (js_error + string set)" where
  "getExistingEntries w =
     (if \<not> auth_client w then ([], Inl Auth_failed)
      else case sheets_get w of
        None \<Rightarrow> ([Sheets_values_get], Inl Request_failed)
      | Some values \<Rightarrow>
          (let rows = (case values of None \<Rightarrow> [] | Some vs \<Rightarrow> vs)
           in ([Sheets_values_get], Inr (set (map stored_key (drop 1 rows))))))"

definition appendToSheet ::
  "('h, 'e) world \<Rightarrow> string list list \<Rightarrow> event list \<times> (js_error + unit)" where
  "appendToSheet w rows =
     (if \<not> auth_client w then ([], Inl Auth_failed)
      else if sheets_append w rows
      then ([Sheets_values_append rows, Log_added (length rows)], Inr ())
      else ([Sheets_values_append rows], Inl Request_failed))"

section \<open>Guessing a category\<close>

text \<open>\<^verbatim>\<open>toLowerCase\<close> on the bytes of a string: the letters A to Z move to a to z, every
  other byte stays. (Outside ASCII, JavaScript maps two characters to a string holding an
  ASCII letter: U+212A to k, which no keyword below contains, and U+0130 to i followed by
  U+0307, where no keyword continues.)\<close>

definition toLowerCase_char :: "char \<Rightarrow> char" where
  "toLowerCase_char c =
     (let n = (of_char c :: nat) in if 65 \<le> n \<and> n \<le> 90 then char_of (n + 32) else c)"

definition toLowerCase :: "string \<Rightarrow> string" where
  "toLowerCase s = map toLowerCase_char s"

text \<open>\<^verbatim>\<open>text.includes(k)\<close>: \<open>k\<close> occurs in \<open>text\<close> as a contiguous run.
  (\<open>includes\<close> is a reserved word of the prover, hence the suffix.)\<close>

fun starts_with :: "string \<Rightarrow> string \<Rightarrow> bool" where
  "starts_with text [] = True"
| "starts_with [] (k # ks) = False"
| "starts_with (c # cs) (k # ks) = (c = k \<and> starts_with cs ks)"

fun includes_str :: "string \<Rightarrow> string \<Rightarrow> bool" where
  "includes_str [] k = (k = [])"
| "includes_str (c # cs) k = (starts_with (c # cs) k \<or> includes_str cs k)"

definition guessCategory :: "string \<Rightarrow> string \<Rightarrow> string \<Rightarrow> string" where
  "guessCategory title location url =
     (let text = toLowerCase (title @ '' '' @ location @ '' '' @ url) in
      if includes_str text ''property'' \<or> includes_str text ''estate'' then ''Property''
      else if includes_str text ''antique'' \<or> includes_str text ''collectible'' then ''Antiques''
      else if includes_str text ''jewel'' \<or> includes_str text ''watch'' then ''Jewellery''
      else if includes_str text ''car'' \<or> includes_str text ''vehicle'' then ''Motors''
      else if includes_str text ''farm'' \<or> includes_str text ''tractor'' then ''Agriculture''
      else if includes_str text ''art'' \<or> includes_str text ''painting'' then ''Art''
      else ''General'')"

section \<open>Scraping one page\<close>

text \<open>The body of the \<^verbatim>\<open>each\<close> callback (lines 79 to 88): the row of one element. An
  exception of the URL constructor leaves the callback, and with it \<^verbatim>\<open>scrapePage\<close>.\<close>

definition extract_item :: "('h, 'e) world \<Rightarrow> site \<Rightarrow> 'e \<Rightarrow> js_error + string list" where
  "extract_item w s el =
     (let sel = site_selectors s;
          title = find_text w el (title_sel sel);
          date = find_text w el (date_sel sel);
          location = find_text w el (location_sel sel);
          found = find_text w el (category_sel sel);
          category = (if found \<noteq> [] then found
                      else guessCategory title location (site_url s));
          description = find_text w el (description_sel sel);
          relativeLink = find_href w el (link_sel sel)
      in case (if truthy relativeLink then URL_href w (the relativeLink) (site_url s)
               else Some (site_url s)) of
           None \<Rightarrow> Inl TypeError
         | Some link \<Rightarrow> Inr [title, date, location, category, description, link])"

fun each_item :: "('h, 'e) world \<Rightarrow> site \<Rightarrow> 'e list \<Rightarrow> js_error + string list list" where
  "each_item w s [] = Inr []"
| "each_item w s (el # els) =
     (case extract_item w s el of
        Inl err \<Rightarrow> Inl err
      | Inr row \<Rightarrow> (case each_item w s els of
                     Inl err \<Rightarrow> Inl err
                   | Inr rows \<Rightarrow> Inr (row # rows)))"

text \<open>Lines 91 to 97: the URL of the next page, \<open>None\<close> for \<^verbatim>\<open>null\<close>.\<close>

definition next_page ::
  "('h, 'e) world \<Rightarrow> site \<Rightarrow> 'h \<Rightarrow> nat \<Rightarrow> js_error + string option" where
  "next_page w s doc page =
     (case site_pagination s of
        None \<Rightarrow> Inr None
      | Some pg \<Rightarrow>
          if truthy (next_sel pg) then
            (let nxt = doc_href w doc (the (next_sel pg)) in
             if truthy nxt \<and> (\<not> truthy_num (limit pg) \<or> page_lt page (limit pg)) then
               (case URL_href w (the nxt) (site_url s) of
                  None \<Rightarrow> Inl TypeError
                | Some u \<Rightarrow> Inr (Some u))
             else Inr None)
          else Inr None)"

definition scrapePage ::
  "('h, 'e) world \<Rightarrow> site \<Rightarrow> string \<Rightarrow> nat \<Rightarrow>
     event list \<times> (js_error + string list list \<times> string option)" where
  "scrapePage w s url page =
     ([Log_scraping_page page url, Http_get url],
      (case axios_get w url of
         None \<Rightarrow> Inl Request_failed
       | Some doc \<Rightarrow>
           (case each_item w s (select w doc (item_sel (site_selectors s))) of
              Inl err \<Rightarrow> Inl err
            | Inr items \<Rightarrow>
                (case next_page w s doc page of
                   Inl err \<Rightarrow> Inl err
                 | Inr nextPage \<Rightarrow> Inr (items, nextPage)))))"

section \<open>Walking one site\<close>

text \<open>
  The \<^verbatim>\<open>while\<close> loop of \<^verbatim>\<open>scrapeSite\<close> (lines 107 to 117), with its variables \<open>pageUrl\<close>,
  \<open>page\<close> and \<open>allItems\<close> and the events so far as arguments. Nothing bounds the loop when
  the site has no limit, so the function is partial: \<open>None\<close> is a walk that never returns.
  The loop's condition is evaluated outside the \<^verbatim>\<open>try\<close>: reading \<^verbatim>\<open>limit\<close> of a missing
  \<^verbatim>\<open>pagination\<close> is a \<^verbatim>\<open>TypeError\<close> that leaves \<^verbatim>\<open>scrapeSite\<close>.
\<close>

partial_function (option) scrapeSite_loop ::
  "('h, 'e) world \<Rightarrow> site \<Rightarrow> string option \<Rightarrow> nat \<Rightarrow> string list list \<Rightarrow> event list \<Rightarrow>
     (event list \<times> (js_error + string list list)) option" where
  "scrapeSite_loop w s pageUrl page allItems tr =
     (if \<not> truthy pageUrl
      then Some (tr @ [Log_found (length allItems) (site_name s)], Inr allItems)
      else case site_pagination s of
        None \<Rightarrow> Some (tr, Inl TypeError)
      | Some pg \<Rightarrow>
          if \<not> truthy_num (limit pg) \<or> page_le page (limit pg) then
            (case scrapePage w s (the pageUrl) page of
               (evs, Inr (items, nextPage)) \<Rightarrow>
                 scrapeSite_loop w s nextPage (page + 1) (allItems @ items) (tr @ evs)
             | (evs, Inl err) \<Rightarrow>
                 Some (tr @ evs @ [Error_on_page (the pageUrl) err,
                                   Log_found (length allItems) (site_name s)], Inr allItems))
          else Some (tr @ [Log_found (length allItems) (site_name s)], Inr allItems))"

definition scrapeSite ::
  "('h, 'e) world \<Rightarrow> site \<Rightarrow> (event list \<times> (js_error + string list list)) option" where
  "scrapeSite w s = scrapeSite_loop w s (Some (site_url s)) 1 [] [Log_starting (site_name s)]"

section \<open>The orchestrator\<close>

text \<open>The inner \<^verbatim>\<open>for\<close> loop (lines 129 to 135) over the rows of one site, with the set
  \<open>existing\<close> and the queue \<open>newRows\<close> as state.\<close>

fun queue_rows ::
  "string list list \<Rightarrow> string set \<Rightarrow> string list list \<Rightarrow> string set \<times> string list list" where
  "queue_rows [] existing newRows = (existing, newRows)"
| "queue_rows (row # rows) existing newRows =
     (let key = row_key row in
      if key \<notin> existing then queue_rows rows (insert key existing) (newRows @ [row])
      else queue_rows rows existing newRows)"

text \<open>The outer \<^verbatim>\<open>for\<close> loop (lines 127 to 136) over the sites.\<close>

fun scrape_sites ::
  "('h, 'e) world \<Rightarrow> site list \<Rightarrow> string set \<Rightarrow> string list list \<Rightarrow> event list \<Rightarrow>
     (event list \<times> (js_error + string set \<times> string list list)) option" where
  "scrape_sites w [] existing newRows tr = Some (tr, Inr (existing, newRows))"
| "scrape_sites w (s # sites) existing newRows tr =
     (case scrapeSite w s of
        None \<Rightarrow> None
      | Some (evs, Inl err) \<Rightarrow> Some (tr @ evs, Inl err)
      | Some (evs, Inr items) \<Rightarrow>
          (case queue_rows items existing newRows of
             (existing', newRows') \<Rightarrow> scrape_sites w sites existing' newRows' (tr @ evs)))"

text \<open>The asynchronous function at the end of the module (lines 123 to 143).\<close>

definition main :: "('h, 'e) world \<Rightarrow> site list \<Rightarrow> (event list \<times> ending) option" where
  "main w sites =
     (case getExistingEntries w of
        (evs, Inl err) \<Rightarrow> Some (evs, Uncaught err)
      | (evs, Inr existing) \<Rightarrow>
          (case scrape_sites w sites existing [] evs of
             None \<Rightarrow> None
           | Some (tr, Inl err) \<Rightarrow> Some (tr, Uncaught err)
           | Some (tr, Inr (existing', newRows)) \<Rightarrow>
               if length newRows > 0 then
                 (case appendToSheet w newRows of
                    (evs', Inl err) \<Rightarrow> Some (tr @ evs', Uncaught err)
                  | (evs', Inr u) \<Rightarrow> Some (tr @ evs', Completed))
               else Some (tr @ [Log_no_new], Completed)))"

text \<open>The module from its first line: the check of the environment (lines 6 to 12), the
  credentials parsed for the client (line 15), then \<open>main\<close>. The list of sites is the
  constant \<open>SITES\<close> in the source; it is an argument here, so that a property can be stated
  for every descriptor.\<close>

definition program :: "env \<Rightarrow> ('h, 'e) world \<Rightarrow> site list \<Rightarrow> (event list \<times> ending) option" where
  "program e w sites =
     (if \<not> truthy (SHEET_ID e) \<or> \<not> truthy (GOOGLE_SERVICE_ACCOUNT_JSON e)
      then Some ([Error_missing_credentials], Process_exit 1)
      else if \<not> json_parse_ok w (the (GOOGLE_SERVICE_ACCOUNT_JSON e))
      then Some ([], Uncaught SyntaxError)
      else main w sites)"

section \<open>Vocabulary of the properties\<close>

subsection \<open>Categories as a table\<close>

text \<open>The keyword groups as the specification lists them, in its order, each with its
  category, and the category of a text: that of the first group one of whose keywords
  occurs in the text (\<open>sublist\<close> is the library's contiguous occurrence).\<close>

definition keyword_groups :: "(string list \<times> string) list" where
  "keyword_groups =
     [([''property'', ''estate''], ''Property''),
      ([''antique'', ''collectible''], ''Antiques''),
      ([''jewel'', ''watch''], ''Jewellery''),
      ([''car'', ''vehicle''], ''Motors''),
      ([''farm'', ''tractor''], ''Agriculture''),
      ([''art'', ''painting''], ''Art'')]"

definition category_of_text :: "string \<Rightarrow> string" where
  "category_of_text t =
     (case find (\<lambda>(kws, c). list_ex (\<lambda>k. sublist k t) kws) keyword_groups of
        None \<Rightarrow> ''General''
      | Some (kws, c) \<Rightarrow> c)"

text \<open>The inference as the specification words it: the table applied to the lower-cased
  concatenation of title, location and base URL.\<close>

definition guessCategory_spec :: "string \<Rightarrow> string \<Rightarrow> string \<Rightarrow> string" where
  "guessCategory_spec title location url =
     category_of_text (toLowerCase (title @ location @ url))"

subsection \<open>First occurrences\<close>

text \<open>The rows of a list whose key is neither in \<open>seen\<close> nor the key of a row before them
  in the list.\<close>

definition first_new :: "string set \<Rightarrow> string list list \<Rightarrow> string list list" where
  "first_new seen rows =
     map snd (filter (\<lambda>(i, row). row_key row \<notin> seen \<union> row_key ` set (take i rows))
                     (enumerate 0 rows))"

text \<open>The rows of a run: what the walks of the sites return, site after site.\<close>

definition walked :: "('h, 'e) world \<Rightarrow> site list \<Rightarrow> string list list" where
  "walked w sites =
     concat (map (\<lambda>s. case scrapeSite w s of
                         Some (evs, Inr items) \<Rightarrow> items
                       | _ \<Rightarrow> []) sites)"

subsection \<open>Reading a trace\<close>

text \<open>The number of page requests in a trace, and the row lists of its append requests.\<close>

fun fetches :: "event list \<Rightarrow> nat" where
  "fetches [] = 0"
| "fetches (Http_get u # tr) = Suc (fetches tr)"
| "fetches (e # tr) = fetches tr"

fun appended :: "event list \<Rightarrow> string list list list" where
  "appended [] = []"
| "appended (Sheets_values_append rows # tr) = rows # appended tr"
| "appended (e # tr) = appended tr"

subsection \<open>The first pages of a walk\<close>

text \<open>The variables of the loop of \<^verbatim>\<open>scrapeSite\<close> after its body has run \<open>n\<close> times without
  an exception (the URL of page \<open>n + 1\<close>, the rows of pages 1 to \<open>n\<close>, the events so far);
  \<open>None\<close> when the loop ends or a page fails before that.\<close>

fun walk_pages ::
  "('h, 'e) world \<Rightarrow> site \<Rightarrow> nat \<Rightarrow> (string option \<times> string list list \<times> event list) option" where
  "walk_pages w s 0 = Some (Some (site_url s), [], [Log_starting (site_name s)])"
| "walk_pages w s (Suc n) =
     (case walk_pages w s n of
        None \<Rightarrow> None
      | Some (pageUrl, allItems, tr) \<Rightarrow>
          (case site_pagination s of
             None \<Rightarrow> None
           | Some pg \<Rightarrow>
               if truthy pageUrl \<and> (\<not> truthy_num (limit pg) \<or> page_le (Suc n) (limit pg)) then
                 (case scrapePage w s (the pageUrl) (Suc n) of
                    (evs, Inr (items, nextPage)) \<Rightarrow> Some (nextPage, allItems @ items, tr @ evs)
                  | (evs, Inl err) \<Rightarrow> None)
               else None))"

text \<open>A page that ends a walk without a limit: scraping it throws, or gives no URL to go
  on with.\<close>

definition page_ends_walk :: "('h, 'e) world \<Rightarrow> site \<Rightarrow> string \<Rightarrow> nat \<Rightarrow> bool" where
  "page_ends_walk w s u p =
     (case snd (scrapePage w s u p) of
        Inl err \<Rightarrow> True
      | Inr (items, nextPage) \<Rightarrow> \<not> truthy nextPage)"

subsection \<open>An example run\<close>

text \<open>
  A world for the configured site: its first page lists two auctions and links to a second
  page, which lists one; the store holds a header and one row. Documents and elements are
  numbers. The first and the third element are the same auction under two dates; the second
  has no link, so its row takes the site's URL, and the store holds a row with its key.
\<close>

definition example_env :: env where
  "example_env = \<lparr> SHEET_ID = Some ''sheet-1'', GOOGLE_SERVICE_ACCOUNT_JSON = Some ''{}'' \<rparr>"

definition example_world :: "(nat, nat) world" where
  "example_world =
     \<lparr> json_parse_ok = (\<lambda>s. s = ''{}''),
       auth_client = True,
       sheets_get = Some (Some
         [[''Title'', ''Date'', ''Location'', ''Category'', ''Description'', ''Link''],
          [''Farm Sale'', ''1 May'', ''York'', ''Agriculture'', ''Tractors'',
           ''https://example.com/auctions'']]),
       sheets_append = (\<lambda>rows. True),
       axios_get = (\<lambda>u. if u = ''https://example.com/auctions'' then Some 1
                         else if u = ''https://example.com/auctions?page=2'' then Some 2
                         else None),
       select = (\<lambda>doc sel. if sel = Some ''.auction-item''
                            then (if doc = 1 then [1, 2] else [3]) else []),
       find_text = (\<lambda>el sel.
          if sel = Some ''.auction-title''
            then (if el = 2 then ''Farm Sale'' else ''Antique Car Auction'')
          else if sel = Some ''.auction-date''
            then (if el = 1 then ''1 May'' else if el = 2 then ''2 May'' else ''3 May'')
          else if sel = Some ''.auction-location'' then ''York''
          else if sel = Some ''.auction-category''
            then (if el = 2 then ''Machinery'' else [])
          else []),
       find_href = (\<lambda>el sel. if sel = Some ''a'' \<and> el \<noteq> 2 then Some ''/lot/1'' else None),
       doc_href = (\<lambda>doc sel. if sel = ''.next-page a'' \<and> doc = 1
                              then Some ''?page=2'' else None),
       URL_href = (\<lambda>rel base.
          if base = ''https://example.com/auctions'' then
            (if rel = ''/lot/1'' then Some ''https://example.com/lot/1''
             else if rel = ''?page=2'' then Some ''https://example.com/auctions?page=2''
             else None)
          else None) \<rparr>"

text \<open>The example site is the configured one.\<close>

definition example_site :: site where
  "example_site = hd SITES"

text \<open>Variants of the example: the second page cannot be fetched; no page lists an
  auction; every URL answers a page that links to a next one.\<close>

definition second_page_down :: "(nat, nat) world" where
  "second_page_down =
     example_world\<lparr> axios_get :=
       (\<lambda>u. if u = ''https://example.com/auctions'' then Some 1 else None) \<rparr>"

definition nothing_listed :: "(nat, nat) world" where
  "nothing_listed = example_world\<lparr> select := (\<lambda>doc sel. []) \<rparr>"

definition endless_world :: "(nat, nat) world" where
  "endless_world =
     example_world\<lparr> axios_get := (\<lambda>u. Some 2),
                    doc_href := (\<lambda>doc sel. Some ''?page=2''),
                    URL_href := (\<lambda>rel base. Some ''https://example.com/auctions?page=2'') \<rparr>"

text \<open>Descriptors derived from the example: no page limit; no pagination object; no title
  selector.\<close>

definition unbounded_site :: site where
  "unbounded_site =
     example_site\<lparr> site_pagination :=
       Some \<lparr> next_sel = Some ''.next-page a'', limit = None \<rparr> \<rparr>"

definition unpaginated_site :: site where
  "unpaginated_site = example_site\<lparr> site_pagination := None \<rparr>"

definition untitled_site :: site where
  "untitled_site =
     example_site\<lparr> site_selectors := (site_selectors example_site)\<lparr> title_sel := None \<rparr> \<rparr>"

text \<open>Environments that lack one of the two variables.\<close>

definition env_without_sheet :: env where
  "env_without_sheet = example_env\<lparr> SHEET_ID := None \<rparr>"

definition env_without_account :: env where
  "env_without_account = example_env\<lparr> GOOGLE_SERVICE_ACCOUNT_JSON := None \<rparr>"

text \<open>The loop's equation, for evaluating walks of given worlds.\<close>

declare scrapeSite_loop.simps [code]

section \<open>Properties of the category inference\<close>

lemma starts_with_prefix: "starts_with t k = prefix k t"
  by (induction t k rule: starts_with.induct) auto

lemma includes_str_sublist: "includes_str t k = sublist k t"
  by (induction t) (auto simp: starts_with_prefix sublist_Cons_right)

text \<open>
  Claim C2, as amended. With an empty category text, the category is inferred from the
  lower-cased text \<open>title + " " + location + " " + url\<close>, the three parts separated by one
  space each: it is the category of the first keyword group, in the order property/estate,
  antique/collectible, jewel/watch, car/vehicle, farm/tractor, art/painting, one of whose
  keywords occurs in that text, and General when none does. In particular a text with
  antique and car in it, and neither property nor estate, is Antiques and not Motors.
\<close>

theorem guessCategory_first_group:
  "guessCategory title location url =
     category_of_text (toLowerCase (title @ '' '' @ location @ '' '' @ url))
   \<and> (sublist ''antique'' (toLowerCase (title @ '' '' @ location @ '' '' @ url))
      \<and> sublist ''car'' (toLowerCase (title @ '' '' @ location @ '' '' @ url))
      \<and> \<not> sublist ''property'' (toLowerCase (title @ '' '' @ location @ '' '' @ url))
      \<and> \<not> sublist ''estate'' (toLowerCase (title @ '' '' @ location @ '' '' @ url))
      \<longrightarrow> guessCategory title location url = ''Antiques'')"
  by (simp add: guessCategory_def category_of_text_def keyword_groups_def
        includes_str_sublist Let_def)

theorem guessCategory_first_group_witness:
  "sublist ''antique''
     (toLowerCase (''Antique Car Auction'' @ '' '' @ ''York'' @ '' '' @ ''https://example.com/auctions''))
   \<and> sublist ''car''
     (toLowerCase (''Antique Car Auction'' @ '' '' @ ''York'' @ '' '' @ ''https://example.com/auctions''))
   \<and> \<not> sublist ''property''
     (toLowerCase (''Antique Car Auction'' @ '' '' @ ''York'' @ '' '' @ ''https://example.com/auctions''))
   \<and> \<not> sublist ''estate''
     (toLowerCase (''Antique Car Auction'' @ '' '' @ ''York'' @ '' '' @ ''https://example.com/auctions''))
   \<and> guessCategory ''Antique Car Auction'' ''York'' ''https://example.com/auctions'' = ''Antiques''"
proof -
  have h: "sublist ''antique''
       (toLowerCase (''Antique Car Auction'' @ '' '' @ ''York'' @ '' '' @ ''https://example.com/auctions''))
     \<and> sublist ''car''
       (toLowerCase (''Antique Car Auction'' @ '' '' @ ''York'' @ '' '' @ ''https://example.com/auctions''))
     \<and> \<not> sublist ''property''
       (toLowerCase (''Antique Car Auction'' @ '' '' @ ''York'' @ '' '' @ ''https://example.com/auctions''))
     \<and> \<not> sublist ''estate''
       (toLowerCase (''Antique Car Auction'' @ '' '' @ ''York'' @ '' '' @ ''https://example.com/auctions''))"
    by code_simp
  from guessCategory_first_group
    [of "''Antique Car Auction''" "''York''" "''https://example.com/auctions''"] h
  show ?thesis by blast
qed

text \<open>The claim as it is worded, over the plain concatenation, fails where a keyword
  straddles two parts: the title Classic and the location Armagh spell car between them.\<close>

theorem guessCategory_concatenation_counterexample:
  "guessCategory ''Classic'' ''Armagh'' ''https://example.com/auctions'' = ''General''
   \<and> guessCategory_spec ''Classic'' ''Armagh'' ''https://example.com/auctions'' = ''Motors''"
  by code_simp

section \<open>Properties of the keys\<close>

lemma first_new_Nil: "first_new seen [] = []"
  by (simp add: first_new_def)

lemma first_new_Cons:
  "first_new seen (row # rows) =
     (if row_key row \<in> seen then first_new seen rows
      else row # first_new (insert (row_key row) seen) rows)"
proof -
  have e: "enumerate (Suc 0) rows = map (\<lambda>(i, r). (Suc i, r)) (enumerate 0 rows)"
    by (simp add: enumerate_Suc_eq apfst_def map_prod_def)
  show ?thesis
    by (auto simp: first_new_def e filter_map comp_def case_prod_unfold insert_absorb
             intro!: arg_cong2[where f = map] filter_cong)
qed

lemma queue_rows_first_new:
  "queue_rows rows existing newRows =
     (existing \<union> row_key ` set rows, newRows @ first_new existing rows)"
  by (induction rows arbitrary: existing newRows)
     (auto simp: first_new_Nil first_new_Cons Let_def)

lemma first_new_keys: "row_key ` set (first_new seen rows) = row_key ` set rows - seen"
  by (induction rows arbitrary: seen) (auto simp: first_new_Nil first_new_Cons)

lemma first_new_distinct: "distinct (map row_key (first_new seen rows))"
  by (induction rows arbitrary: seen)
     (auto simp: first_new_Nil first_new_Cons first_new_keys)

lemma row_key_six: "row_key [title, date, location, category, description, link] = title @ ''|'' @ link"
  by (simp add: row_key_def cell_def)

lemma stored_key_six:
  "stored_key [title, date, location, category, description, link] = title @ ''|'' @ link"
  by (simp add: stored_key_def cell_or_empty_def)

text \<open>
  Claim C10. The key \<open>title + "|" + link\<close> does not determine the title and the link: moving
  a part of the title that follows a bar over to the front of the link leaves the key as
  it is. The rows with title \<open>a|b\<close>, link \<open>c\<close> and with title \<open>a\<close>, link \<open>b|c\<close> differ in both
  fields and share the key \<open>a|b|c\<close>, so the second is dropped after the first, in one run
  and against a store that holds the first.
\<close>

theorem row_key_not_injective:
  "row_key [a @ ''|'' @ b, d, l, c, ds, k] = row_key [a, d', l', c', ds', b @ ''|'' @ k]
   \<and> row_key [''a|b'', d, l, c, ds, ''c''] = row_key [''a'', d', l', c', ds', ''b|c'']
   \<and> ''a|b'' \<noteq> ''a'' \<and> ''c'' \<noteq> ''b|c''
   \<and> snd (queue_rows [[''a|b'', d, l, c, ds, ''c''], [''a'', d', l', c', ds', ''b|c'']] {} [])
       = [[''a|b'', d, l, c, ds, ''c'']]
   \<and> snd (queue_rows [[''a'', d', l', c', ds', ''b|c'']]
            (set (map stored_key [[''a|b'', d, l, c, ds, ''c'']])) []) = []"
  by (simp add: row_key_six stored_key_six Let_def)

section \<open>The loop of a walk, case by case\<close>

lemma fetches_append: "fetches (a @ b) = fetches a + fetches b"
  by (induction a rule: fetches.induct) auto

lemma appended_append: "appended (a @ b) = appended a @ appended b"
  by (induction a rule: appended.induct) auto

lemma scrapePage_events:
  "scrapePage w s u p = (evs, r) \<Longrightarrow> evs = [Log_scraping_page p u, Http_get u]"
  by (simp add: scrapePage_def)

lemma truthy_Some: "truthy pageUrl \<Longrightarrow> \<exists>u. pageUrl = Some u \<and> u \<noteq> []"
  by (cases pageUrl) (auto simp: truthy_def)

lemma loop_stop:
  "\<not> truthy pageUrl \<Longrightarrow>
   scrapeSite_loop w s pageUrl page allItems tr =
     Some (tr @ [Log_found (length allItems) (site_name s)], Inr allItems)"
  by (subst scrapeSite_loop.simps) simp

lemma loop_crash:
  "truthy pageUrl \<Longrightarrow> site_pagination s = None \<Longrightarrow>
   scrapeSite_loop w s pageUrl page allItems tr = Some (tr, Inl TypeError)"
  by (subst scrapeSite_loop.simps) simp

lemma loop_limit:
  "truthy pageUrl \<Longrightarrow> site_pagination s = Some pg \<Longrightarrow>
   truthy_num (limit pg) \<Longrightarrow> \<not> page_le page (limit pg) \<Longrightarrow>
   scrapeSite_loop w s pageUrl page allItems tr =
     Some (tr @ [Log_found (length allItems) (site_name s)], Inr allItems)"
  by (subst scrapeSite_loop.simps) simp

lemma loop_fail:
  "u \<noteq> [] \<Longrightarrow> site_pagination s = Some pg \<Longrightarrow>
   \<not> truthy_num (limit pg) \<or> page_le page (limit pg) \<Longrightarrow>
   scrapePage w s u page = (evs, Inl err) \<Longrightarrow>
   scrapeSite_loop w s (Some u) page allItems tr =
     Some (tr @ evs @ [Error_on_page u err, Log_found (length allItems) (site_name s)],
           Inr allItems)"
  by (subst scrapeSite_loop.simps) (simp add: truthy_def)

lemma loop_step:
  "u \<noteq> [] \<Longrightarrow> site_pagination s = Some pg \<Longrightarrow>
   \<not> truthy_num (limit pg) \<or> page_le page (limit pg) \<Longrightarrow>
   scrapePage w s u page = (evs, Inr (items, nextPage)) \<Longrightarrow>
   scrapeSite_loop w s (Some u) page allItems tr =
     scrapeSite_loop w s nextPage (page + 1) (allItems @ items) (tr @ evs)"
  by (subst scrapeSite_loop.simps) (simp add: truthy_def)

text \<open>Induction over a walk that returns: one case for each way the loop ends, and one
  for a page that is scraped, after which the loop goes on from the next state.\<close>

lemma scrapeSite_loop_induct [consumes 1, case_names stop crash limit fail step]:
  assumes ret: "scrapeSite_loop w s pageUrl page allItems tr = Some y"
    and stop: "\<And>pageUrl page allItems tr. \<not> truthy pageUrl \<Longrightarrow>
      P pageUrl page allItems tr
        (tr @ [Log_found (length allItems) (site_name s)], Inr allItems)"
    and crash: "\<And>pageUrl page allItems tr. truthy pageUrl \<Longrightarrow> site_pagination s = None \<Longrightarrow>
      P pageUrl page allItems tr (tr, Inl TypeError)"
    and limit: "\<And>pageUrl page allItems tr pg. truthy pageUrl \<Longrightarrow>
      site_pagination s = Some pg \<Longrightarrow> truthy_num (limit pg) \<Longrightarrow> \<not> page_le page (limit pg) \<Longrightarrow>
      P pageUrl page allItems tr
        (tr @ [Log_found (length allItems) (site_name s)], Inr allItems)"
    and fail: "\<And>u page allItems tr pg evs err. u \<noteq> [] \<Longrightarrow>
      site_pagination s = Some pg \<Longrightarrow> \<not> truthy_num (limit pg) \<or> page_le page (limit pg) \<Longrightarrow>
      scrapePage w s u page = (evs, Inl err) \<Longrightarrow>
      P (Some u) page allItems tr
        (tr @ evs @ [Error_on_page u err, Log_found (length allItems) (site_name s)],
         Inr allItems)"
    and step: "\<And>u page allItems tr pg evs items nextPage y. u \<noteq> [] \<Longrightarrow>
      site_pagination s = Some pg \<Longrightarrow> \<not> truthy_num (limit pg) \<or> page_le page (limit pg) \<Longrightarrow>
      scrapePage w s u page = (evs, Inr (items, nextPage)) \<Longrightarrow>
      scrapeSite_loop w s nextPage (page + 1) (allItems @ items) (tr @ evs) = Some y \<Longrightarrow>
      P nextPage (page + 1) (allItems @ items) (tr @ evs) y \<Longrightarrow>
      P (Some u) page allItems tr y"
  shows "P pageUrl page allItems tr y"
proof -
  have "w' = w \<and> s' = s \<longrightarrow>
          scrapeSite_loop w s pageUrl page allItems tr = Some y \<and> P pageUrl page allItems tr y"
    if "scrapeSite_loop w' s' pageUrl page allItems tr = Some y" for w' s'
    using that
  proof (rule scrapeSite_loop.raw_induct
      [where P = "\<lambda>w' s' pageUrl page allItems tr y. w' = w \<and> s' = s \<longrightarrow>
          scrapeSite_loop w s pageUrl page allItems tr = Some y \<and> P pageUrl page allItems tr y",
        rotated])
    fix f :: "('a, 'b) world \<Rightarrow> site \<Rightarrow> string option \<Rightarrow> nat \<Rightarrow> string list list \<Rightarrow> event list \<Rightarrow>
       (event list \<times> (js_error + string list list)) option"
    fix w' s' pageUrl page allItems tr y
    assume IH: "\<And>w' s' pageUrl page allItems tr y. f w' s' pageUrl page allItems tr = Some y \<Longrightarrow>
       w' = w \<and> s' = s \<longrightarrow>
         scrapeSite_loop w s pageUrl page allItems tr = Some y \<and> P pageUrl page allItems tr y"
    assume body: "(if \<not> truthy pageUrl
        then Some (tr @ [Log_found (length allItems) (site_name s')], Inr allItems)
        else case site_pagination s' of
          None \<Rightarrow> Some (tr, Inl TypeError)
        | Some pg \<Rightarrow>
            if \<not> truthy_num (limit pg) \<or> page_le page (limit pg) then
              (case scrapePage w' s' (the pageUrl) page of
                 (evs, Inr (items, nextPage)) \<Rightarrow>
                   f w' s' nextPage (page + 1) (allItems @ items) (tr @ evs)
               | (evs, Inl err) \<Rightarrow>
                   Some (tr @ evs @ [Error_on_page (the pageUrl) err,
                                     Log_found (length allItems) (site_name s')], Inr allItems))
            else Some (tr @ [Log_found (length allItems) (site_name s')], Inr allItems)) = Some y"
    show "w' = w \<and> s' = s \<longrightarrow>
            scrapeSite_loop w s pageUrl page allItems tr = Some y \<and> P pageUrl page allItems tr y"
    proof
      assume eq: "w' = w \<and> s' = s"
      show "scrapeSite_loop w s pageUrl page allItems tr = Some y \<and> P pageUrl page allItems tr y"
      proof (cases "truthy pageUrl")
        case False
        with body stop[OF False] eq loop_stop[OF False] show ?thesis by auto
      next
        case True
        then obtain u where u: "pageUrl = Some u" "u \<noteq> []"
          using truthy_Some by blast
        show ?thesis
        proof (cases "site_pagination s")
          case None
          with True body crash[OF True None] eq loop_crash[OF True None] show ?thesis by auto
        next
          case (Some pg)
          show ?thesis
          proof (cases "\<not> truthy_num (limit pg) \<or> page_le page (limit pg)")
            case False
            then have l: "truthy_num (limit pg)" "\<not> page_le page (limit pg)" by auto
            from True Some body eq False
            have "y = (tr @ [Log_found (length allItems) (site_name s)], Inr allItems)"
              by auto
            with limit[OF True Some l] loop_limit[OF True Some l] show ?thesis by simp
          next
            case go: True
            obtain evs r where sp: "scrapePage w s u page = (evs, r)"
              by (cases "scrapePage w s u page")
            show ?thesis
            proof (cases r)
              case (Inl err)
              from True Some go sp body eq u Inl
              have "y = (tr @ evs @ [Error_on_page u err,
                           Log_found (length allItems) (site_name s)], Inr allItems)"
                by auto
              with u fail[OF u(2) Some go sp[unfolded Inl]]
                loop_fail[OF u(2) Some go sp[unfolded Inl]]
              show ?thesis by simp
            next
              case (Inr p)
              obtain items nextPage where p: "p = (items, nextPage)" by (cases p)
              from True Some go sp Inr p body eq u
              have "f w s nextPage (page + 1) (allItems @ items) (tr @ evs) = Some y"
                by simp
              from IH[OF this]
              have nxt: "scrapeSite_loop w s nextPage (page + 1) (allItems @ items) (tr @ evs) = Some y"
                and P: "P nextPage (page + 1) (allItems @ items) (tr @ evs) y"
                by simp_all
              from step[OF u(2) Some go sp[unfolded Inr p] nxt P]
                loop_step[OF u(2) Some go sp[unfolded Inr p]] nxt u
              show ?thesis by simp
            qed
          qed
        qed
      qed
    qed
  qed
  from this[OF ret] show ?thesis by simp
qed

text \<open>A walk only adds events to the trace, and no append request is among them.\<close>

lemma scrapeSite_loop_extends:
  assumes "scrapeSite_loop w s pageUrl page allItems tr = Some y"
  shows "\<exists>evs. fst y = tr @ evs \<and> appended evs = []"
  using assms
proof (induction rule: scrapeSite_loop_induct)
  case (fail u page allItems tr pg evs err)
  then show ?case by (auto dest: scrapePage_events)
next
  case (step u page allItems tr pg evs items nextPage y)
  then obtain evs' where "fst y = (tr @ evs) @ evs'" "appended evs' = []" by blast
  moreover have "appended evs = []" using step by (auto dest: scrapePage_events)
  ultimately show ?case by (intro exI[of _ "evs @ evs'"]) (simp add: appended_append)
qed auto

lemma scrapeSite_no_append:
  assumes "scrapeSite w s = Some (evs, r)"
  shows "appended evs = []"
proof -
  from scrapeSite_loop_extends[OF assms[unfolded scrapeSite_def]]
  obtain evs' where "evs = [Log_starting (site_name s)] @ evs'" "appended evs' = []"
    by auto
  then show ?thesis by simp
qed

section \<open>The queue of a run\<close>

lemma first_new_append:
  "first_new seen (xs @ ys) = first_new seen xs @ first_new (seen \<union> row_key ` set xs) ys"
  by (induction xs arbitrary: seen) (auto simp: first_new_Nil first_new_Cons insert_absorb)

lemma walked_Nil: "walked w [] = []"
  by (simp add: walked_def)

lemma walked_Cons:
  "scrapeSite w s = Some (evs, Inr items) \<Longrightarrow> walked w (s # sites) = items @ walked w sites"
  by (simp add: walked_def)

lemma scrape_sites_queue:
  "scrape_sites w sites existing newRows tr = Some (tr', Inr (existing', newRows')) \<Longrightarrow>
   existing' = existing \<union> row_key ` set (walked w sites)
   \<and> newRows' = newRows @ first_new existing (walked w sites)"
proof (induction sites arbitrary: existing newRows tr)
  case Nil
  then show ?case by (simp add: walked_Nil first_new_Nil)
next
  case (Cons s sites)
  from Cons.prems obtain evs items where
    ws: "scrapeSite w s = Some (evs, Inr items)"
    and rest: "scrape_sites w sites (existing \<union> row_key ` set items)
                 (newRows @ first_new existing items) (tr @ evs)
               = Some (tr', Inr (existing', newRows'))"
    by (auto simp: queue_rows_first_new split: option.splits sum.splits)
  from Cons.IH[OF rest] show ?case
    by (simp add: walked_Cons[OF ws] first_new_append Un_assoc image_Un)
qed

lemma scrape_sites_extends:
  "scrape_sites w sites existing newRows tr = Some (tr', r) \<Longrightarrow>
   \<exists>evs. tr' = tr @ evs \<and> appended evs = []"
proof (induction sites arbitrary: existing newRows tr)
  case Nil
  then show ?case by simp
next
  case (Cons s sites)
  show ?case
  proof (cases "scrapeSite w s")
    case None
    with Cons.prems show ?thesis by simp
  next
    case (Some a)
    obtain evs res where a: "a = (evs, res)" by (cases a)
    have na: "appended evs = []"
      using Some a scrapeSite_no_append by blast
    show ?thesis
    proof (cases res)
      case (Inl err)
      with Cons.prems Some a na show ?thesis by auto
    next
      case (Inr items)
      with Cons.prems Some a
      have "scrape_sites w sites (existing \<union> row_key ` set items)
              (newRows @ first_new existing items) (tr @ evs) = Some (tr', r)"
        by (simp add: queue_rows_first_new)
      from Cons.IH[OF this] obtain evs' where "tr' = (tr @ evs) @ evs'" "appended evs' = []"
        by blast
      with na show ?thesis by (intro exI[of _ "evs @ evs'"]) (simp add: appended_append)
    qed
  qed
qed

lemma getExistingEntries_events:
  "getExistingEntries w = (evs, Inr H) \<Longrightarrow> evs = [Sheets_values_get]"
  by (auto simp: getExistingEntries_def Let_def split: option.splits if_splits)

lemma getExistingEntries_client:
  "getExistingEntries w = (evs, Inr H) \<Longrightarrow> auth_client w"
  by (auto simp: getExistingEntries_def split: if_splits)

text \<open>Every row that a walk returns has six cells, so its key is its first cell, a bar and
  its sixth cell.\<close>

lemma extract_item_six: "extract_item w s el = Inr row \<Longrightarrow> length row = 6"
  by (auto simp: extract_item_def Let_def split: option.splits)

lemma each_item_six: "each_item w s els = Inr rows \<Longrightarrow> \<forall>row\<in>set rows. length row = 6"
proof (induction els arbitrary: rows)
  case Nil
  then show ?case by simp
next
  case (Cons el els)
  then show ?case
    by (auto split: sum.splits dest: extract_item_six)
qed

lemma scrapePage_six:
  "scrapePage w s u p = (evs, Inr (items, nextPage)) \<Longrightarrow> \<forall>row\<in>set items. length row = 6"
  by (auto simp: scrapePage_def split: option.splits sum.splits dest: each_item_six)

lemma scrapeSite_loop_six:
  assumes "scrapeSite_loop w s pageUrl page allItems tr = Some y"
  shows "(\<forall>row\<in>set allItems. length row = 6) \<longrightarrow>
         (\<forall>rows. snd y = Inr rows \<longrightarrow> (\<forall>row\<in>set rows. length row = 6))"
  using assms
proof (induction rule: scrapeSite_loop_induct)
  case (step u page allItems tr pg evs items nextPage y)
  from scrapePage_six[OF step(4)] step(6) show ?case by auto
qed auto

lemma scrapeSite_six:
  "scrapeSite w s = Some (evs, Inr rows) \<Longrightarrow> \<forall>row\<in>set rows. length row = 6"
  using scrapeSite_loop_six[of w s "Some (site_url s)" 1 "[]" "[Log_starting (site_name s)]"
      "(evs, Inr rows)"]
  by (simp add: scrapeSite_def)

lemma walked_step:
  "walked w (s # sites) =
     (case scrapeSite w s of Some (evs, Inr items) \<Rightarrow> items | _ \<Rightarrow> []) @ walked w sites"
  by (simp add: walked_def)

lemma walked_six: "\<forall>row\<in>set (walked w sites). length row = 6"
proof (induction sites)
  case Nil
  then show ?case by (simp add: walked_Nil)
next
  case (Cons s sites)
  have "\<forall>row\<in>set (case scrapeSite w s of Some (evs, Inr items) \<Rightarrow> items | _ \<Rightarrow> []).
          length row = 6"
  proof (cases "scrapeSite w s")
    case None
    then show ?thesis by simp
  next
    case (Some a)
    obtain evs r where a: "a = (evs, r)" by (cases a)
    show ?thesis
    proof (cases r)
      case (Inl err)
      with Some a show ?thesis by simp
    next
      case (Inr rows)
      with Some a scrapeSite_six[of w s evs rows] show ?thesis by simp
    qed
  qed
  with Cons show ?case by (auto simp: walked_step)
qed

lemma row_key_of_six: "length row = 6 \<Longrightarrow> row_key row = row ! 0 @ ''|'' @ row ! 5"
  by (simp add: row_key_def cell_def)

text \<open>
  Claim C1. In a run that completes, with \<open>H\<close> the keys read from the store (first and sixth
  cell of every row but the header) and the rows of all sites taken in the order they were
  walked: the queue is the list of the rows whose key is neither in \<open>H\<close> nor the key of an
  earlier row of the run, in that order, and it is what the one append request holds (no
  request when it is empty); the key set ends as \<open>H\<close> with the keys of all rows of the run;
  no two queued rows share a key, and each key of the run that is not in \<open>H\<close> is queued.
  The key of a row is its title, a bar and its link, and so is the key of a stored row:
  every row of the run has six cells and its key is the first, a bar and the sixth. Rows
  that differ in date, location, category or description only have the same key.
\<close>

theorem only_first_occurrence_queued:
  assumes "getExistingEntries w = (evs, Inr H)"
    and "main w sites = Some (tr, Completed)"
  shows "H = set (map stored_key (drop 1 (case sheets_get w of Some (Some vs) \<Rightarrow> vs | _ \<Rightarrow> [])))
    \<and> (\<exists>tr0. scrape_sites w sites H [] evs =
          Some (tr0, Inr (H \<union> row_key ` set (walked w sites), first_new H (walked w sites))))
    \<and> appended tr = (if first_new H (walked w sites) = [] then []
                     else [first_new H (walked w sites)])
    \<and> distinct (map row_key (first_new H (walked w sites)))
    \<and> row_key ` set (first_new H (walked w sites)) = row_key ` set (walked w sites) - H
    \<and> row_key [title, date, location, category, description, link] =
        row_key [title, date', location', category', description', link]
    \<and> row_key [title, date, location, category, description, link] = title @ ''|'' @ link
    \<and> stored_key [title, date, location, category, description, link] = title @ ''|'' @ link
    \<and> (\<forall>row\<in>set (walked w sites).
          length row = 6 \<and> row_key row = row ! 0 @ ''|'' @ row ! 5)"
proof -
  have H: "H = set (map stored_key (drop 1 (case sheets_get w of Some (Some vs) \<Rightarrow> vs | _ \<Rightarrow> [])))"
    using assms(1)
    by (auto simp: getExistingEntries_def Let_def split: option.splits if_splits)
  have evs: "evs = [Sheets_values_get]"
    using assms(1) by (rule getExistingEntries_events)
  from assms obtain tr0 existing' newRows where
    ss: "scrape_sites w sites H [] evs = Some (tr0, Inr (existing', newRows))"
    by (auto simp: main_def split: option.splits sum.splits prod.splits if_splits)
  from scrape_sites_queue[OF ss]
  have q: "existing' = H \<union> row_key ` set (walked w sites)"
    "newRows = first_new H (walked w sites)"
    by simp_all
  from scrape_sites_extends[OF ss] obtain evs' where
    tr0: "tr0 = evs @ evs'" "appended evs' = []"
    by blast
  have a0: "appended tr0 = []"
    using tr0 evs by (simp add: appended_append)
  have "appended tr = (if newRows = [] then [] else [newRows])"
    using assms ss a0 getExistingEntries_client[OF assms(1)]
    by (auto simp: main_def appendToSheet_def appended_append split: if_splits)
  moreover have "\<forall>row\<in>set (walked w sites).
          length row = 6 \<and> row_key row = row ! 0 @ ''|'' @ row ! 5"
    using walked_six[of w sites] by (auto simp: row_key_of_six)
  ultimately show ?thesis
    using H ss q
    by (simp add: first_new_distinct first_new_keys row_key_six stored_key_six)
qed

text \<open>The example run: of its three rows, the second is in the store and the third
  repeats the first under another date; the first alone is appended.\<close>

theorem only_first_occurrence_queued_witness:
  "getExistingEntries example_world =
     ([Sheets_values_get], Inr {''Farm Sale|https://example.com/auctions''})
   \<and> main example_world SITES =
       Some ([Sheets_values_get, Log_starting ''Example Auctions'',
              Log_scraping_page 1 ''https://example.com/auctions'',
              Http_get ''https://example.com/auctions'',
              Log_scraping_page 2 ''https://example.com/auctions?page=2'',
              Http_get ''https://example.com/auctions?page=2'',
              Log_found 3 ''Example Auctions'',
              Sheets_values_append
                [[''Antique Car Auction'', ''1 May'', ''York'', ''Antiques'', [],
                  ''https://example.com/lot/1'']],
              Log_added 1], Completed)
   \<and> first_new {''Farm Sale|https://example.com/auctions''} (walked example_world SITES) =
       [[''Antique Car Auction'', ''1 May'', ''York'', ''Antiques'', [],
         ''https://example.com/lot/1'']]
   \<and> row_key [''Antique Car Auction'', ''1 May'', ''York'', ''Antiques'', [],
                ''https://example.com/lot/1''] =
       ''Antique Car Auction|https://example.com/lot/1''
   \<and> row_key [''Antique Car Auction'', ''3 May'', ''York'', ''Antiques'', [],
                ''https://example.com/lot/1''] =
       ''Antique Car Auction|https://example.com/lot/1''
   \<and> stored_key [''Farm Sale'', ''1 May'', ''York'', ''Agriculture'', ''Tractors'',
                   ''https://example.com/auctions''] =
       ''Farm Sale|https://example.com/auctions''"
proof -
  have g: "getExistingEntries example_world =
     ([Sheets_values_get], Inr {''Farm Sale|https://example.com/auctions''})"
    by code_simp
  have m: "main example_world SITES =
       Some ([Sheets_values_get, Log_starting ''Example Auctions'',
              Log_scraping_page 1 ''https://example.com/auctions'',
              Http_get ''https://example.com/auctions'',
              Log_scraping_page 2 ''https://example.com/auctions?page=2'',
              Http_get ''https://example.com/auctions?page=2'',
              Log_found 3 ''Example Auctions'',
              Sheets_values_append
                [[''Antique Car Auction'', ''1 May'', ''York'', ''Antiques'', [],
                  ''https://example.com/lot/1'']],
              Log_added 1], Completed)"
    by code_simp
  from only_first_occurrence_queued[OF g m, THEN conjunct2, THEN conjunct2, THEN conjunct1]
  have "first_new {''Farm Sale|https://example.com/auctions''} (walked example_world SITES) =
       [[''Antique Car Auction'', ''1 May'', ''York'', ''Antiques'', [],
         ''https://example.com/lot/1'']]"
    by (simp split: if_splits)
  moreover
  from only_first_occurrence_queued[OF g m, THEN conjunct2, THEN conjunct2, THEN conjunct2,
      THEN conjunct2, THEN conjunct2, THEN conjunct2, THEN conjunct1,
      of "''Antique Car Auction''" "''1 May''" "''York''" "''Antiques''" "[]"
        "''https://example.com/lot/1''"]
  have "row_key [''Antique Car Auction'', ''1 May'', ''York'', ''Antiques'', [],
                ''https://example.com/lot/1''] =
       ''Antique Car Auction|https://example.com/lot/1''"
    by simp
  moreover
  from only_first_occurrence_queued[OF g m, THEN conjunct2, THEN conjunct2, THEN conjunct2,
      THEN conjunct2, THEN conjunct2, THEN conjunct2, THEN conjunct1,
      of "''Antique Car Auction''" "''3 May''" "''York''" "''Antiques''" "[]"
        "''https://example.com/lot/1''"]
  have "row_key [''Antique Car Auction'', ''3 May'', ''York'', ''Antiques'', [],
                ''https://example.com/lot/1''] =
       ''Antique Car Auction|https://example.com/lot/1''"
    by simp
  moreover
  from only_first_occurrence_queued[OF g m, THEN conjunct2, THEN conjunct2, THEN conjunct2,
      THEN conjunct2, THEN conjunct2, THEN conjunct2, THEN conjunct2, THEN conjunct1,
      of "''Farm Sale''" "''1 May''" "''York''" "''Agriculture''" "''Tractors''"
        "''https://example.com/auctions''"]
  have "stored_key [''Farm Sale'', ''1 May'', ''York'', ''Agriculture'', ''Tractors'',
                   ''https://example.com/auctions''] =
       ''Farm Sale|https://example.com/auctions''"
    by simp
  ultimately show ?thesis using g m by blast
qed

section \<open>How a walk ends\<close>

lemma loop_bounded:
  assumes pg: "site_pagination s = Some pg" "limit pg = Some N" "0 < N"
  shows "\<exists>tr' res. scrapeSite_loop w s pageUrl page allItems tr = Some (tr', res)
           \<and> fetches tr' \<le> fetches tr + (nat N + 1 - page)"
proof (induction "nat N + 1 - page" arbitrary: page pageUrl allItems tr)
  case 0
  have tn: "truthy_num (limit pg)" using pg by (simp add: truthy_num_def)
  have nle: "\<not> page_le page (limit pg)" using 0 pg by (simp add: page_le_def)
  show ?case
  proof (cases "truthy pageUrl")
    case False
    then show ?thesis by (simp add: loop_stop fetches_append)
  next
    case True
    then show ?thesis by (simp add: loop_limit[OF True pg(1) tn nle] fetches_append)
  qed
next
  case (Suc k)
  have tn: "truthy_num (limit pg)" using pg by (simp add: truthy_num_def)
  have le: "page_le page (limit pg)" using Suc(2) pg by (simp add: page_le_def)
  then have go: "\<not> truthy_num (limit pg) \<or> page_le page (limit pg)" by simp
  show ?case
  proof (cases "truthy pageUrl")
    case False
    then show ?thesis by (simp add: loop_stop fetches_append)
  next
    case True
    then obtain u where u: "pageUrl = Some u" "u \<noteq> []" using truthy_Some by blast
    obtain evs r where sp: "scrapePage w s u page = (evs, r)"
      by (cases "scrapePage w s u page")
    have evs: "fetches evs = 1" using scrapePage_events[OF sp] by simp
    show ?thesis
    proof (cases r)
      case (Inl err)
      show ?thesis
        using Suc(2) evs u
        by (simp add: loop_fail[OF u(2) pg(1) go sp[unfolded Inl]] fetches_append)
    next
      case (Inr p)
      obtain items nextPage where p: "p = (items, nextPage)" by (cases p)
      have k: "k = nat N + 1 - (page + 1)" using Suc(2) by simp
      from Suc(1)[OF k, of nextPage "allItems @ items" "tr @ evs"]
      obtain tr' res where
        "scrapeSite_loop w s nextPage (page + 1) (allItems @ items) (tr @ evs) = Some (tr', res)"
        "fetches tr' \<le> fetches (tr @ evs) + (nat N + 1 - (page + 1))"
        by blast
      then show ?thesis
        using Suc(2) evs u
        by (simp add: loop_step[OF u(2) pg(1) go sp[unfolded Inr p]] fetches_append)
    qed
  qed
qed

lemma unbounded_loop_end:
  assumes ret: "scrapeSite_loop w s pageUrl page allItems tr = Some y"
    and pg: "site_pagination s = Some pg" "\<not> truthy_num (limit pg)"
  shows "\<not> truthy pageUrl \<or>
         (\<exists>evs u p. fst y = tr @ evs \<and> Log_scraping_page p u \<in> set evs \<and> page_ends_walk w s u p)"
  using ret
proof (induction rule: scrapeSite_loop_induct)
  case (stop pageUrl page allItems tr)
  then show ?case by simp
next
  case (crash pageUrl page allItems tr)
  then show ?case using pg by simp
next
  case (limit pageUrl page allItems tr pg')
  then show ?case using pg by simp
next
  case (fail u page allItems tr pg' evs err)
  have "page_ends_walk w s u page"
    using fail by (simp add: page_ends_walk_def)
  moreover have "Log_scraping_page page u \<in> set evs"
    using scrapePage_events[OF fail(4)] by simp
  ultimately show ?case by auto
next
  case (step u page allItems tr pg' evs items nextPage y)
  have here: "Log_scraping_page page u \<in> set evs"
    using scrapePage_events[OF step(4)] by simp
  from scrapeSite_loop_extends[OF step(5)] obtain evs' where
    ext: "fst y = (tr @ evs) @ evs'" by blast
  show ?case
  proof (cases "truthy nextPage")
    case False
    then have "page_ends_walk w s u page"
      using step(4) by (simp add: page_ends_walk_def)
    with here ext show ?thesis by auto
  next
    case True
    with step(6) obtain evs'' u' p' where
      "fst y = (tr @ evs) @ evs''" "Log_scraping_page p' u' \<in> set evs''"
      "page_ends_walk w s u' p'"
      by blast
    then show ?thesis by auto
  qed
qed

text \<open>
  Claim C3. A site whose pagination has a positive limit \<open>N\<close>: the walk returns, in every
  world, and has requested at most \<open>N\<close> pages. A site whose pagination has no limit (none
  given, or 0): a walk that returns has scraped a page that failed or gave no next URL (or
  the site's own URL is empty, and no page was asked for); where no page ever fails or
  lacks a next URL, the walk does not return.
\<close>

theorem walk_page_limit:
  "(site_pagination s = Some pg \<and> limit pg = Some N \<and> 0 < N \<longrightarrow>
      (\<exists>tr res. scrapeSite w s = Some (tr, res) \<and> fetches tr \<le> nat N))
   \<and> (site_pagination s = Some pg \<and> \<not> truthy_num (limit pg) \<and> scrapeSite w s = Some (tr, res) \<longrightarrow>
        site_url s = [] \<or> (\<exists>u p. Log_scraping_page p u \<in> set tr \<and> page_ends_walk w s u p))
   \<and> (site_pagination s = Some pg \<and> \<not> truthy_num (limit pg) \<and> site_url s \<noteq> []
        \<and> (\<forall>u p. \<not> page_ends_walk w s u p) \<longrightarrow> scrapeSite w s = None)"
proof (intro conjI impI)
  assume a: "site_pagination s = Some pg \<and> limit pg = Some N \<and> 0 < N"
  then have pg: "site_pagination s = Some pg" "limit pg = Some N" "0 < N" by simp_all
  from loop_bounded[OF pg, of w "Some (site_url s)" 1 "[]" "[Log_starting (site_name s)]"]
  show "\<exists>tr res. scrapeSite w s = Some (tr, res) \<and> fetches tr \<le> nat N"
    by (simp add: scrapeSite_def)
next
  assume a: "site_pagination s = Some pg \<and> \<not> truthy_num (limit pg) \<and> scrapeSite w s = Some (tr, res)"
  then have ret: "scrapeSite_loop w s (Some (site_url s)) 1 [] [Log_starting (site_name s)]
                    = Some (tr, res)"
    by (simp add: scrapeSite_def)
  from unbounded_loop_end[OF ret] a
  show "site_url s = [] \<or> (\<exists>u p. Log_scraping_page p u \<in> set tr \<and> page_ends_walk w s u p)"
    by (auto simp: truthy_def)
next
  assume a: "site_pagination s = Some pg \<and> \<not> truthy_num (limit pg) \<and> site_url s \<noteq> []
        \<and> (\<forall>u p. \<not> page_ends_walk w s u p)"
  show "scrapeSite w s = None"
  proof (rule ccontr)
    assume "scrapeSite w s \<noteq> None"
    then obtain y where ret: "scrapeSite_loop w s (Some (site_url s)) 1 []
        [Log_starting (site_name s)] = Some y"
      by (auto simp: scrapeSite_def)
    from unbounded_loop_end[OF ret] a show False
      by (auto simp: truthy_def)
  qed
qed

text \<open>The configured site, with its limit of 5, and the site without a limit, in the
  example world: the second walk ends at page 2, which has no next link. In the endless
  world it never returns.\<close>

theorem walk_page_limit_witness:
  "(\<exists>tr res. scrapeSite example_world example_site = Some (tr, res) \<and> fetches tr \<le> nat 5)
   \<and> scrapeSite example_world unbounded_site =
       Some ([Log_starting ''Example Auctions'',
              Log_scraping_page 1 ''https://example.com/auctions'',
              Http_get ''https://example.com/auctions'',
              Log_scraping_page 2 ''https://example.com/auctions?page=2'',
              Http_get ''https://example.com/auctions?page=2'',
              Log_found 3 ''Example Auctions''],
             Inr [[''Antique Car Auction'', ''1 May'', ''York'', ''Antiques'', [],
                   ''https://example.com/lot/1''],
                  [''Farm Sale'', ''2 May'', ''York'', ''Machinery'', [],
                   ''https://example.com/auctions''],
                  [''Antique Car Auction'', ''3 May'', ''York'', ''Antiques'', [],
                   ''https://example.com/lot/1'']])
   \<and> (\<exists>u p. Log_scraping_page p u \<in>
               set [Log_starting ''Example Auctions'',
                    Log_scraping_page 1 ''https://example.com/auctions'',
                    Http_get ''https://example.com/auctions'',
                    Log_scraping_page 2 ''https://example.com/auctions?page=2'',
                    Http_get ''https://example.com/auctions?page=2'',
                    Log_found 3 ''Example Auctions'']
             \<and> page_ends_walk example_world unbounded_site u p)
   \<and> (\<forall>u p. \<not> page_ends_walk endless_world unbounded_site u p)
   \<and> scrapeSite endless_world unbounded_site = None"
proof -
  have p5: "site_pagination example_site =
              Some \<lparr> next_sel = Some ''.next-page a'', limit = Some 5 \<rparr>"
    by (simp add: example_site_def SITES_def)
  have pu: "site_pagination unbounded_site =
              Some \<lparr> next_sel = Some ''.next-page a'', limit = None \<rparr>"
    by (simp add: unbounded_site_def)
  have url: "site_url unbounded_site \<noteq> []"
    by (simp add: unbounded_site_def example_site_def SITES_def)
  have w2: "scrapeSite example_world unbounded_site =
       Some ([Log_starting ''Example Auctions'',
              Log_scraping_page 1 ''https://example.com/auctions'',
              Http_get ''https://example.com/auctions'',
              Log_scraping_page 2 ''https://example.com/auctions?page=2'',
              Http_get ''https://example.com/auctions?page=2'',
              Log_found 3 ''Example Auctions''],
             Inr [[''Antique Car Auction'', ''1 May'', ''York'', ''Antiques'', [],
                   ''https://example.com/lot/1''],
                  [''Farm Sale'', ''2 May'', ''York'', ''Machinery'', [],
                   ''https://example.com/auctions''],
                  [''Antique Car Auction'', ''3 May'', ''York'', ''Antiques'', [],
                   ''https://example.com/lot/1'']])"
    by code_simp
  have never: "\<forall>u p. \<not> page_ends_walk endless_world unbounded_site u p"
    by (simp add: page_ends_walk_def scrapePage_def endless_world_def example_world_def
          unbounded_site_def example_site_def SITES_def next_page_def extract_item_def
          truthy_def truthy_num_def Let_def)
  have c1: "\<exists>tr res. scrapeSite example_world example_site = Some (tr, res) \<and> fetches tr \<le> nat 5"
    using walk_page_limit[of example_site "\<lparr> next_sel = Some ''.next-page a'', limit = Some 5 \<rparr>" 5
        example_world] p5
    by simp
  have c2: "\<exists>u p. Log_scraping_page p u \<in>
               set [Log_starting ''Example Auctions'',
                    Log_scraping_page 1 ''https://example.com/auctions'',
                    Http_get ''https://example.com/auctions'',
                    Log_scraping_page 2 ''https://example.com/auctions?page=2'',
                    Http_get ''https://example.com/auctions?page=2'',
                    Log_found 3 ''Example Auctions'']
             \<and> page_ends_walk example_world unbounded_site u p"
    using walk_page_limit[of unbounded_site "\<lparr> next_sel = Some ''.next-page a'', limit = None \<rparr>" _
        example_world, THEN conjunct2, THEN conjunct1, rule_format, OF conjI[OF pu conjI[OF _ w2]]]
      url
    by (simp add: truthy_num_def)
  have c3: "scrapeSite endless_world unbounded_site = None"
    using walk_page_limit[of unbounded_site "\<lparr> next_sel = Some ''.next-page a'', limit = None \<rparr>" _
        endless_world] pu url never
    by (simp add: truthy_num_def)
  from c1 w2 c2 never c3 show ?thesis by blast
qed

section \<open>A page that fails\<close>

lemma walk_pages_loop:
  "walk_pages w s n = Some (pageUrl, allItems, tr) \<Longrightarrow>
   scrapeSite w s = scrapeSite_loop w s pageUrl (Suc n) allItems tr"
proof (induction n arbitrary: pageUrl allItems tr)
  case 0
  then show ?case by (auto simp: scrapeSite_def)
next
  case (Suc n)
  from Suc.prems obtain pageUrl0 allItems0 tr0 pg evs items where
    prev: "walk_pages w s n = Some (pageUrl0, allItems0, tr0)"
    and pg: "site_pagination s = Some pg"
    and t: "truthy pageUrl0"
    and go: "\<not> truthy_num (limit pg) \<or> page_le (Suc n) (limit pg)"
    and sp: "scrapePage w s (the pageUrl0) (Suc n) = (evs, Inr (items, pageUrl))"
    and eq: "allItems = allItems0 @ items" "tr = tr0 @ evs"
    by (auto split: option.splits if_splits prod.splits sum.splits)
  from t obtain u where u: "pageUrl0 = Some u" "u \<noteq> []" using truthy_Some by blast
  from Suc.IH[OF prev] loop_step[OF u(2) pg go sp[unfolded u option.sel]] u eq
  show ?case by simp
qed

text \<open>
  Claim C4. When the first \<open>n\<close> pages of a site were scraped, giving the rows \<open>allItems\<close>,
  and scraping the page after them throws, the walk returns exactly \<open>allItems\<close>: that page
  was requested once, the error is printed with its URL, then the count, and nothing else
  happens. The run goes on: the orchestrator queues those rows and walks the sites that
  follow.
\<close>

theorem failed_page_ends_walk:
  assumes "walk_pages w s n = Some (Some u, allItems, tr)"
    and "u \<noteq> []"
    and "site_pagination s = Some pg"
    and "\<not> truthy_num (limit pg) \<or> page_le (Suc n) (limit pg)"
    and "snd (scrapePage w s u (Suc n)) = Inl err"
  shows "scrapeSite w s =
      Some (tr @ [Log_scraping_page (Suc n) u, Http_get u, Error_on_page u err,
                  Log_found (length allItems) (site_name s)], Inr allItems)
    \<and> scrape_sites w (s # sites) existing newRows tr0 =
        scrape_sites w sites (fst (queue_rows allItems existing newRows))
          (snd (queue_rows allItems existing newRows))
          (tr0 @ tr @ [Log_scraping_page (Suc n) u, Http_get u, Error_on_page u err,
                       Log_found (length allItems) (site_name s)])"
proof -
  obtain evs where sp: "scrapePage w s u (Suc n) = (evs, Inl err)"
    using assms(5) by (cases "scrapePage w s u (Suc n)") simp
  have evs: "evs = [Log_scraping_page (Suc n) u, Http_get u]"
    using sp by (rule scrapePage_events)
  have walk: "scrapeSite w s =
      Some (tr @ [Log_scraping_page (Suc n) u, Http_get u, Error_on_page u err,
                  Log_found (length allItems) (site_name s)], Inr allItems)"
    using walk_pages_loop[OF assms(1)] loop_fail[OF assms(2) assms(3) assms(4) sp] evs
    by simp
  then show ?thesis by (simp add: case_prod_unfold)
qed

text \<open>The world whose second page is down: the walk returns the two rows of the first
  page, and a run over the site listed twice walks it twice and completes.\<close>

theorem failed_page_ends_walk_witness:
  "walk_pages second_page_down example_site 1 =
     Some (Some ''https://example.com/auctions?page=2'',
           [[''Antique Car Auction'', ''1 May'', ''York'', ''Antiques'', [],
             ''https://example.com/lot/1''],
            [''Farm Sale'', ''2 May'', ''York'', ''Machinery'', [],
             ''https://example.com/auctions'']],
           [Log_starting ''Example Auctions'',
            Log_scraping_page 1 ''https://example.com/auctions'',
            Http_get ''https://example.com/auctions''])
   \<and> snd (scrapePage second_page_down example_site ''https://example.com/auctions?page=2'' 2)
       = Inl Request_failed
   \<and> scrapeSite second_page_down example_site =
       Some ([Log_starting ''Example Auctions'',
              Log_scraping_page 1 ''https://example.com/auctions'',
              Http_get ''https://example.com/auctions'',
              Log_scraping_page 2 ''https://example.com/auctions?page=2'',
              Http_get ''https://example.com/auctions?page=2'',
              Error_on_page ''https://example.com/auctions?page=2'' Request_failed,
              Log_found 2 ''Example Auctions''],
             Inr [[''Antique Car Auction'', ''1 May'', ''York'', ''Antiques'', [],
                   ''https://example.com/lot/1''],
                  [''Farm Sale'', ''2 May'', ''York'', ''Machinery'', [],
                   ''https://example.com/auctions'']])
   \<and> program example_env second_page_down [example_site, example_site] =
       Some ([Sheets_values_get, Log_starting ''Example Auctions'',
              Log_scraping_page 1 ''https://example.com/auctions'',
              Http_get ''https://example.com/auctions'',
              Log_scraping_page 2 ''https://example.com/auctions?page=2'',
              Http_get ''https://example.com/auctions?page=2'',
              Error_on_page ''https://example.com/auctions?page=2'' Request_failed,
              Log_found 2 ''Example Auctions'', Log_starting ''Example Auctions'',
              Log_scraping_page 1 ''https://example.com/auctions'',
              Http_get ''https://example.com/auctions'',
              Log_scraping_page 2 ''https://example.com/auctions?page=2'',
              Http_get ''https://example.com/auctions?page=2'',
              Error_on_page ''https://example.com/auctions?page=2'' Request_failed,
              Log_found 2 ''Example Auctions'',
              Sheets_values_append
                [[''Antique Car Auction'', ''1 May'', ''York'', ''Antiques'', [],
                  ''https://example.com/lot/1'']],
              Log_added 1], Completed)"
proof -
  have a1: "walk_pages second_page_down example_site 1 =
     Some (Some ''https://example.com/auctions?page=2'',
           [[''Antique Car Auction'', ''1 May'', ''York'', ''Antiques'', [],
             ''https://example.com/lot/1''],
            [''Farm Sale'', ''2 May'', ''York'', ''Machinery'', [],
             ''https://example.com/auctions'']],
           [Log_starting ''Example Auctions'',
            Log_scraping_page 1 ''https://example.com/auctions'',
            Http_get ''https://example.com/auctions''])"
    by code_simp
  have a2: "''https://example.com/auctions?page=2'' \<noteq> []" by simp
  have a3: "site_pagination example_site =
              Some \<lparr> next_sel = Some ''.next-page a'', limit = Some 5 \<rparr>"
    by (simp add: example_site_def SITES_def)
  have a4: "\<not> truthy_num (limit \<lparr> next_sel = Some ''.next-page a'', limit = Some 5 \<rparr>)
            \<or> page_le (Suc 1) (limit \<lparr> next_sel = Some ''.next-page a'', limit = Some 5 \<rparr>)"
    by (simp add: page_le_def)
  have a5: "snd (scrapePage second_page_down example_site
                   ''https://example.com/auctions?page=2'' (Suc 1)) = Inl Request_failed"
    by code_simp
  have n: "site_name example_site = ''Example Auctions''"
    by (simp add: example_site_def SITES_def)
  have two: "program example_env second_page_down [example_site, example_site] =
       Some ([Sheets_values_get, Log_starting ''Example Auctions'',
              Log_scraping_page 1 ''https://example.com/auctions'',
              Http_get ''https://example.com/auctions'',
              Log_scraping_page 2 ''https://example.com/auctions?page=2'',
              Http_get ''https://example.com/auctions?page=2'',
              Error_on_page ''https://example.com/auctions?page=2'' Request_failed,
              Log_found 2 ''Example Auctions'', Log_starting ''Example Auctions'',
              Log_scraping_page 1 ''https://example.com/auctions'',
              Http_get ''https://example.com/auctions'',
              Log_scraping_page 2 ''https://example.com/auctions?page=2'',
              Http_get ''https://example.com/auctions?page=2'',
              Error_on_page ''https://example.com/auctions?page=2'' Request_failed,
              Log_found 2 ''Example Auctions'',
              Sheets_values_append
                [[''Antique Car Auction'', ''1 May'', ''York'', ''Antiques'', [],
                  ''https://example.com/lot/1'']],
              Log_added 1], Completed)"
    by code_simp
  from failed_page_ends_walk[OF a1 a2 a3 a4 a5, THEN conjunct1] a1 a5 n two
  show ?thesis by (simp add: numeral_2_eq_2)
qed

section \<open>Starting up\<close>

text \<open>
  Claim C5. When the spreadsheet identifier or the service-account JSON is missing from the
  environment (or empty), the process prints the error and exits with code 1, and that is
  all it does: no request is sent and no site is walked.
\<close>

theorem missing_env_exits:
  "\<not> truthy (SHEET_ID e) \<or> \<not> truthy (GOOGLE_SERVICE_ACCOUNT_JSON e) \<Longrightarrow>
   program e w sites = Some ([Error_missing_credentials], Process_exit 1)"
  by (auto simp: program_def)

theorem missing_env_exits_witness:
  "\<not> truthy (SHEET_ID env_without_sheet)
   \<and> program env_without_sheet example_world SITES =
       Some ([Error_missing_credentials], Process_exit 1)
   \<and> \<not> truthy (GOOGLE_SERVICE_ACCOUNT_JSON env_without_account)
   \<and> program env_without_account example_world SITES =
       Some ([Error_missing_credentials], Process_exit 1)"
proof -
  have s: "\<not> truthy (SHEET_ID env_without_sheet)"
    by (simp add: env_without_sheet_def truthy_def)
  have a: "\<not> truthy (GOOGLE_SERVICE_ACCOUNT_JSON env_without_account)"
    by (simp add: env_without_account_def truthy_def)
  from missing_env_exits[OF disjI1[OF s], of example_world SITES]
       missing_env_exits[OF disjI2[OF a], of example_world SITES] s a
  show ?thesis by blast
qed

section \<open>The link of a row\<close>

text \<open>
  Claim C6. The row of an element has six cells, and its sixth, the link, is: the URL that
  the element's href resolves to against the site's URL, when the link selector finds a
  non-empty href (and the resolution gives a URL); the site's URL itself, when it finds no
  href (or an empty one). A walk returns rows only for a site whose URL is not empty, so
  the link that falls back to it is not empty.
\<close>

theorem link_resolved_or_base:
  "(find_href w el (link_sel (site_selectors s)) = Some h \<and> h \<noteq> []
      \<and> URL_href w h (site_url s) = Some a \<longrightarrow>
      (\<exists>row. extract_item w s el = Inr row \<and> length row = 6 \<and> row ! 5 = a))
   \<and> (\<not> truthy (find_href w el (link_sel (site_selectors s))) \<longrightarrow>
        (\<exists>row. extract_item w s el = Inr row \<and> length row = 6 \<and> row ! 5 = site_url s))
   \<and> (scrapeSite w s = Some (tr, Inr rows) \<and> rows \<noteq> [] \<longrightarrow> site_url s \<noteq> [])"
proof (intro conjI impI)
  assume "find_href w el (link_sel (site_selectors s)) = Some h \<and> h \<noteq> []
      \<and> URL_href w h (site_url s) = Some a"
  then show "\<exists>row. extract_item w s el = Inr row \<and> length row = 6 \<and> row ! 5 = a"
    by (simp add: extract_item_def truthy_def Let_def)
next
  assume "\<not> truthy (find_href w el (link_sel (site_selectors s)))"
  then show "\<exists>row. extract_item w s el = Inr row \<and> length row = 6 \<and> row ! 5 = site_url s"
    by (simp add: extract_item_def Let_def)
next
  assume a: "scrapeSite w s = Some (tr, Inr rows) \<and> rows \<noteq> []"
  show "site_url s \<noteq> []"
  proof
    assume "site_url s = []"
    then have "\<not> truthy (Some (site_url s))" by (simp add: truthy_def)
    from loop_stop[OF this, of w s 1 "[]" "[Log_starting (site_name s)]"] a
    show False by (auto simp: scrapeSite_def)
  qed
qed

text \<open>In the example, the first element links to \<open>/lot/1\<close> and the second has no link.\<close>

theorem link_resolved_or_base_witness:
  "find_href example_world 1 (link_sel (site_selectors example_site)) = Some ''/lot/1''
   \<and> URL_href example_world ''/lot/1'' (site_url example_site) = Some ''https://example.com/lot/1''
   \<and> (\<exists>row. extract_item example_world example_site 1 = Inr row \<and> length row = 6
          \<and> row ! 5 = ''https://example.com/lot/1'')
   \<and> \<not> truthy (find_href example_world 2 (link_sel (site_selectors example_site)))
   \<and> (\<exists>row. extract_item example_world example_site 2 = Inr row \<and> length row = 6
          \<and> row ! 5 = ''https://example.com/auctions'')
   \<and> site_url example_site \<noteq> []"
proof -
  have h1: "find_href example_world 1 (link_sel (site_selectors example_site)) = Some ''/lot/1''"
    by code_simp
  have h2: "URL_href example_world ''/lot/1'' (site_url example_site)
              = Some ''https://example.com/lot/1''"
    by code_simp
  have h3: "\<not> truthy (find_href example_world 2 (link_sel (site_selectors example_site)))"
    by code_simp
  have u: "site_url example_site = ''https://example.com/auctions''"
    by (simp add: example_site_def SITES_def)
  have w: "scrapeSite example_world example_site =
       Some ([Log_starting ''Example Auctions'',
              Log_scraping_page 1 ''https://example.com/auctions'',
              Http_get ''https://example.com/auctions'',
              Log_scraping_page 2 ''https://example.com/auctions?page=2'',
              Http_get ''https://example.com/auctions?page=2'',
              Log_found 3 ''Example Auctions''],
             Inr [[''Antique Car Auction'', ''1 May'', ''York'', ''Antiques'', [],
                   ''https://example.com/lot/1''],
                  [''Farm Sale'', ''2 May'', ''York'', ''Machinery'', [],
                   ''https://example.com/auctions''],
                  [''Antique Car Auction'', ''3 May'', ''York'', ''Antiques'', [],
                   ''https://example.com/lot/1'']])"
    by code_simp
  have c1: "\<exists>row. extract_item example_world example_site 1 = Inr row \<and> length row = 6
          \<and> row ! 5 = ''https://example.com/lot/1''"
    using link_resolved_or_base[of example_world 1 example_site "''/lot/1''"
        "''https://example.com/lot/1''", THEN conjunct1] h1 h2
    by simp
  have c2: "\<exists>row. extract_item example_world example_site 2 = Inr row \<and> length row = 6
          \<and> row ! 5 = ''https://example.com/auctions''"
    using link_resolved_or_base[of example_world 2 example_site, THEN conjunct2, THEN conjunct1]
      h3 u
    by simp
  have c3: "site_url example_site \<noteq> []"
    using link_resolved_or_base[of example_world _ example_site _ _ _ _, THEN conjunct2,
        THEN conjunct2, rule_format, OF conjI[OF w]]
    by simp
  from h1 h2 c1 h3 c2 c3 show ?thesis by blast
qed

section \<open>Appending\<close>

lemma appendToSheet_events:
  "auth_client w \<Longrightarrow> appendToSheet w rows = (evs, r) \<Longrightarrow> appended evs = [rows]"
  by (auto simp: appendToSheet_def split: if_splits)

text \<open>
  Claim C7, as amended. The append operation has no check of its own: whatever rows it is
  given, an empty list too, it sends the append request first (in a run that has read the
  store, so that the client is there). It is the orchestrator that
  looks at the queue. When the queue is empty after all sites, the run sends no append
  request, prints that there are no new auctions and completes; when it is not, the run
  sends one append request, holding the queue.
\<close>

theorem append_skipped_for_empty_queue:
  assumes "getExistingEntries w = (evs, Inr H)"
    and "scrape_sites w sites H [] evs = Some (tr0, Inr (existing', newRows))"
  shows "(newRows = [] \<longrightarrow>
            main w sites = Some (tr0 @ [Log_no_new], Completed)
            \<and> appended (tr0 @ [Log_no_new]) = [])
    \<and> (newRows \<noteq> [] \<longrightarrow>
          (\<exists>evs' e. main w sites = Some (tr0 @ evs', e) \<and> appended (tr0 @ evs') = [newRows]))
    \<and> hd (fst (appendToSheet w rows)) = Sheets_values_append rows"
proof -
  from scrape_sites_extends[OF assms(2)] obtain evs0 where
    "tr0 = evs @ evs0" "appended evs0 = []"
    by blast
  moreover have "evs = [Sheets_values_get]"
    using assms(1) by (rule getExistingEntries_events)
  ultimately have a0: "appended tr0 = []"
    by (simp add: appended_append)
  have empty: "main w sites = Some (tr0 @ [Log_no_new], Completed)
                 \<and> appended (tr0 @ [Log_no_new]) = []" if "newRows = []"
    using that assms a0 by (simp add: main_def appended_append)
  have full: "\<exists>evs' e. main w sites = Some (tr0 @ evs', e) \<and> appended (tr0 @ evs') = [newRows]"
    if "newRows \<noteq> []"
  proof -
    obtain evs' r where ap: "appendToSheet w newRows = (evs', r)"
      by (cases "appendToSheet w newRows")
    have "appended (tr0 @ evs') = [newRows]"
      using a0 appendToSheet_events[OF getExistingEntries_client[OF assms(1)] ap]
      by (simp add: appended_append)
    moreover have "\<exists>e. main w sites = Some (tr0 @ evs', e)"
      using that assms ap by (cases r) (simp_all add: main_def)
    ultimately show ?thesis by blast
  qed
  have "hd (fst (appendToSheet w rows)) = Sheets_values_append rows"
    using getExistingEntries_client[OF assms(1)] by (simp add: appendToSheet_def)
  with empty full show ?thesis by blast
qed

text \<open>The world that lists nothing, and the example world.\<close>

theorem append_skipped_for_empty_queue_witness:
  "getExistingEntries nothing_listed =
     ([Sheets_values_get], Inr {''Farm Sale|https://example.com/auctions''})
   \<and> main nothing_listed SITES =
       Some ([Sheets_values_get, Log_starting ''Example Auctions'',
              Log_scraping_page 1 ''https://example.com/auctions'',
              Http_get ''https://example.com/auctions'',
              Log_scraping_page 2 ''https://example.com/auctions?page=2'',
              Http_get ''https://example.com/auctions?page=2'',
              Log_found 0 ''Example Auctions'', Log_no_new], Completed)
   \<and> appended [Sheets_values_get, Log_starting ''Example Auctions'',
              Log_scraping_page 1 ''https://example.com/auctions'',
              Http_get ''https://example.com/auctions'',
              Log_scraping_page 2 ''https://example.com/auctions?page=2'',
              Http_get ''https://example.com/auctions?page=2'',
              Log_found 0 ''Example Auctions'', Log_no_new] = []
   \<and> (\<exists>evs' e. main example_world SITES =
          Some ([Sheets_values_get, Log_starting ''Example Auctions'',
                 Log_scraping_page 1 ''https://example.com/auctions'',
                 Http_get ''https://example.com/auctions'',
                 Log_scraping_page 2 ''https://example.com/auctions?page=2'',
                 Http_get ''https://example.com/auctions?page=2'',
                 Log_found 3 ''Example Auctions''] @ evs', e)
        \<and> appended ([Sheets_values_get, Log_starting ''Example Auctions'',
                 Log_scraping_page 1 ''https://example.com/auctions'',
                 Http_get ''https://example.com/auctions'',
                 Log_scraping_page 2 ''https://example.com/auctions?page=2'',
                 Http_get ''https://example.com/auctions?page=2'',
                 Log_found 3 ''Example Auctions''] @ evs') =
            [[[''Antique Car Auction'', ''1 May'', ''York'', ''Antiques'', [],
               ''https://example.com/lot/1'']]])"
proof -
  have g: "getExistingEntries nothing_listed =
     ([Sheets_values_get], Inr {''Farm Sale|https://example.com/auctions''})"
    by code_simp
  have ss: "scrape_sites nothing_listed SITES {''Farm Sale|https://example.com/auctions''} []
              [Sheets_values_get] =
       Some ([Sheets_values_get, Log_starting ''Example Auctions'',
              Log_scraping_page 1 ''https://example.com/auctions'',
              Http_get ''https://example.com/auctions'',
              Log_scraping_page 2 ''https://example.com/auctions?page=2'',
              Http_get ''https://example.com/auctions?page=2'',
              Log_found 0 ''Example Auctions''],
             Inr ({''Farm Sale|https://example.com/auctions''}, []))"
    by code_simp
  have g': "getExistingEntries example_world =
     ([Sheets_values_get], Inr {''Farm Sale|https://example.com/auctions''})"
    by code_simp
  have ss': "scrape_sites example_world SITES {''Farm Sale|https://example.com/auctions''} []
              [Sheets_values_get] =
       Some ([Sheets_values_get, Log_starting ''Example Auctions'',
              Log_scraping_page 1 ''https://example.com/auctions'',
              Http_get ''https://example.com/auctions'',
              Log_scraping_page 2 ''https://example.com/auctions?page=2'',
              Http_get ''https://example.com/auctions?page=2'',
              Log_found 3 ''Example Auctions''],
             Inr ({''Farm Sale|https://example.com/auctions'',
                   ''Antique Car Auction|https://example.com/lot/1''},
                  [[''Antique Car Auction'', ''1 May'', ''York'', ''Antiques'', [],
                    ''https://example.com/lot/1'']]))"
    by code_simp
  have e: "main nothing_listed SITES =
       Some ([Sheets_values_get, Log_starting ''Example Auctions'',
              Log_scraping_page 1 ''https://example.com/auctions'',
              Http_get ''https://example.com/auctions'',
              Log_scraping_page 2 ''https://example.com/auctions?page=2'',
              Http_get ''https://example.com/auctions?page=2'',
              Log_found 0 ''Example Auctions'', Log_no_new], Completed)
   \<and> appended [Sheets_values_get, Log_starting ''Example Auctions'',
              Log_scraping_page 1 ''https://example.com/auctions'',
              Http_get ''https://example.com/auctions'',
              Log_scraping_page 2 ''https://example.com/auctions?page=2'',
              Http_get ''https://example.com/auctions?page=2'',
              Log_found 0 ''Example Auctions'', Log_no_new] = []"
    using append_skipped_for_empty_queue[OF g ss, THEN conjunct1] by simp
  have f: "\<exists>evs' e. main example_world SITES =
          Some ([Sheets_values_get, Log_starting ''Example Auctions'',
                 Log_scraping_page 1 ''https://example.com/auctions'',
                 Http_get ''https://example.com/auctions'',
                 Log_scraping_page 2 ''https://example.com/auctions?page=2'',
                 Http_get ''https://example.com/auctions?page=2'',
                 Log_found 3 ''Example Auctions''] @ evs', e)
        \<and> appended ([Sheets_values_get, Log_starting ''Example Auctions'',
                 Log_scraping_page 1 ''https://example.com/auctions'',
                 Http_get ''https://example.com/auctions'',
                 Log_scraping_page 2 ''https://example.com/auctions?page=2'',
                 Http_get ''https://example.com/auctions?page=2'',
                 Log_found 3 ''Example Auctions''] @ evs') =
            [[[''Antique Car Auction'', ''1 May'', ''York'', ''Antiques'', [],
               ''https://example.com/lot/1'']]]"
    using append_skipped_for_empty_queue[OF g' ss', THEN conjunct2, THEN conjunct1] by simp
  from g e f show ?thesis by blast
qed

text \<open>The claim as it is worded fails at the append operation itself: given no rows, it
  sends an append request with no rows and prints that 0 auctions were added.\<close>

theorem appendToSheet_empty_counterexample:
  "appendToSheet example_world [] = ([Sheets_values_append [], Log_added 0], Inr ())"
  by code_simp

section \<open>Descriptors that lack a property\<close>

lemma scrapeSite_starts:
  assumes ret: "scrapeSite w s = Some (evs, r)"
    and url: "site_url s \<noteq> []"
    and pg: "site_pagination s = Some pg"
    and go: "\<not> truthy_num (limit pg) \<or> page_le 1 (limit pg)"
  shows "\<exists>rest. evs = [Log_starting (site_name s), Log_scraping_page 1 (site_url s),
                       Http_get (site_url s)] @ rest"
proof -
  obtain evs1 r1 where sp: "scrapePage w s (site_url s) 1 = (evs1, r1)"
    by (cases "scrapePage w s (site_url s) 1")
  have evs1: "evs1 = [Log_scraping_page 1 (site_url s), Http_get (site_url s)]"
    using sp by (rule scrapePage_events)
  show ?thesis
  proof (cases r1)
    case (Inl err)
    from loop_fail[OF url pg go sp[unfolded Inl], of "[]" "[Log_starting (site_name s)]"] ret evs1
    show ?thesis by (auto simp: scrapeSite_def)
  next
    case (Inr p)
    obtain items nextPage where p: "p = (items, nextPage)" by (cases p)
    from loop_step[OF url pg go sp[unfolded Inr p], of "[]" "[Log_starting (site_name s)]"] ret
    have "scrapeSite_loop w s nextPage (1 + 1) ([] @ items)
            ([Log_starting (site_name s)] @ evs1) = Some (evs, r)"
      by (simp add: scrapeSite_def)
    from scrapeSite_loop_extends[OF this] evs1 show ?thesis by auto
  qed
qed

lemma scrape_sites_starts:
  assumes ret: "scrape_sites w (s # sites) existing newRows tr0 = Some (tr', r)"
    and url: "site_url s \<noteq> []"
    and pg: "site_pagination s = Some pg"
    and go: "\<not> truthy_num (limit pg) \<or> page_le 1 (limit pg)"
  shows "\<exists>rest. tr' = tr0 @ [Log_starting (site_name s), Log_scraping_page 1 (site_url s),
                             Http_get (site_url s)] @ rest"
proof (cases "scrapeSite w s")
  case None
  with ret show ?thesis by simp
next
  case (Some a)
  obtain evs res where a: "a = (evs, res)" by (cases a)
  from scrapeSite_starts[OF Some[unfolded a] url pg go] obtain rest where
    evs: "evs = [Log_starting (site_name s), Log_scraping_page 1 (site_url s),
                 Http_get (site_url s)] @ rest"
    by blast
  show ?thesis
  proof (cases res)
    case (Inl err)
    with ret Some a evs show ?thesis by auto
  next
    case (Inr items)
    with ret Some a
    have "scrape_sites w sites (fst (queue_rows items existing newRows))
            (snd (queue_rows items existing newRows)) (tr0 @ evs) = Some (tr', r)"
      by (simp add: case_prod_unfold)
    from scrape_sites_extends[OF this] obtain evs' where "tr' = (tr0 @ evs) @ evs'"
      by blast
    with evs show ?thesis by simp
  qed
qed

lemma main_extends:
  assumes "main w sites = Some (tr, en)" and "getExistingEntries w = (evs, Inr H)"
  shows "\<exists>tr1 r1 more. scrape_sites w sites H [] evs = Some (tr1, r1) \<and> tr = tr1 @ more"
  using assms
  by (auto simp: main_def split: option.splits sum.splits prod.splits if_splits)

text \<open>
  Claim C8, as amended. A descriptor that lacks a required field selector is not rejected at
  startup: nothing reads the selectors before the site is scraped. With both environment
  variables set, the credentials parsed and the store read, a run that returns has started
  with the read of the store and then, for the first descriptor (its URL not empty, its
  pagination admitting page 1), the line that starts the site and the request of its first
  page: this whichever selectors the descriptor holds or lacks.
\<close>

theorem incomplete_descriptor_is_scraped:
  assumes "truthy (SHEET_ID e)"
    and "truthy (GOOGLE_SERVICE_ACCOUNT_JSON e)"
    and "json_parse_ok w (the (GOOGLE_SERVICE_ACCOUNT_JSON e))"
    and "getExistingEntries w = (evs, Inr H)"
    and "site_url s \<noteq> []"
    and "site_pagination s = Some pg"
    and "\<not> truthy_num (limit pg) \<or> page_le 1 (limit pg)"
    and "program e w (s\<lparr> site_selectors := sel \<rparr> # sites) = Some (tr, en)"
  shows "\<exists>rest. tr = [Sheets_values_get, Log_starting (site_name s),
                       Log_scraping_page 1 (site_url s), Http_get (site_url s)] @ rest"
proof -
  have m: "main w (s\<lparr> site_selectors := sel \<rparr> # sites) = Some (tr, en)"
    using assms(1,2,3,8) by (simp add: program_def)
  from main_extends[OF m assms(4)] obtain tr1 r1 more where
    ss: "scrape_sites w (s\<lparr> site_selectors := sel \<rparr> # sites) H [] evs = Some (tr1, r1)"
    and tr: "tr = tr1 @ more"
    by blast
  have "\<exists>rest. tr1 = evs @ [Log_starting (site_name (s\<lparr> site_selectors := sel \<rparr>)),
                 Log_scraping_page 1 (site_url (s\<lparr> site_selectors := sel \<rparr>)),
                 Http_get (site_url (s\<lparr> site_selectors := sel \<rparr>))] @ rest"
    using assms(5,6,7) by (intro scrape_sites_starts[OF ss, of pg]) simp_all
  then obtain rest where
    "tr1 = evs @ [Log_starting (site_name s), Log_scraping_page 1 (site_url s),
                  Http_get (site_url s)] @ rest"
    by auto
  with tr getExistingEntries_events[OF assms(4)] show ?thesis by simp
qed

text \<open>The descriptor without a title selector, in the example environment and world.\<close>

theorem incomplete_descriptor_is_scraped_witness:
  "truthy (SHEET_ID example_env) \<and> truthy (GOOGLE_SERVICE_ACCOUNT_JSON example_env)
   \<and> json_parse_ok example_world (the (GOOGLE_SERVICE_ACCOUNT_JSON example_env))
   \<and> getExistingEntries example_world =
       ([Sheets_values_get], Inr {''Farm Sale|https://example.com/auctions''})
   \<and> title_sel (site_selectors untitled_site) = None
   \<and> (\<exists>rest. program example_env example_world [untitled_site] =
         Some ([Sheets_values_get, Log_starting ''Example Auctions'',
                Log_scraping_page 1 ''https://example.com/auctions'',
                Http_get ''https://example.com/auctions''] @ rest, Completed))"
proof -
  have h1: "truthy (SHEET_ID example_env)" by code_simp
  have h2: "truthy (GOOGLE_SERVICE_ACCOUNT_JSON example_env)" by code_simp
  have h3: "json_parse_ok example_world (the (GOOGLE_SERVICE_ACCOUNT_JSON example_env))"
    by code_simp
  have h4: "getExistingEntries example_world =
       ([Sheets_values_get], Inr {''Farm Sale|https://example.com/auctions''})"
    by code_simp
  have h5: "site_url example_site \<noteq> []"
    by (simp add: example_site_def SITES_def)
  have h6: "site_pagination example_site =
              Some \<lparr> next_sel = Some ''.next-page a'', limit = Some 5 \<rparr>"
    by (simp add: example_site_def SITES_def)
  have h7: "\<not> truthy_num (limit \<lparr> next_sel = Some ''.next-page a'', limit = Some 5 \<rparr>)
            \<or> page_le 1 (limit \<lparr> next_sel = Some ''.next-page a'', limit = Some 5 \<rparr>)"
    by (simp add: page_le_def)
  have h8: "program example_env example_world
              [example_site\<lparr> site_selectors := (site_selectors example_site)\<lparr> title_sel := None \<rparr> \<rparr>] =
       Some ([Sheets_values_get, Log_starting ''Example Auctions'',
              Log_scraping_page 1 ''https://example.com/auctions'',
              Http_get ''https://example.com/auctions'',
              Log_scraping_page 2 ''https://example.com/auctions?page=2'',
              Http_get ''https://example.com/auctions?page=2'',
              Log_found 3 ''Example Auctions'',
              Sheets_values_append
                [[[], ''1 May'', ''York'', ''General'', [], ''https://example.com/lot/1''],
                 [[], ''2 May'', ''York'', ''Machinery'', [], ''https://example.com/auctions'']],
              Log_added 2], Completed)"
    by code_simp
  have n: "site_name example_site = ''Example Auctions''"
    "site_url example_site = ''https://example.com/auctions''"
    by (simp_all add: example_site_def SITES_def)
  have t: "title_sel (site_selectors untitled_site) = None"
    by (simp add: untitled_site_def)
  from incomplete_descriptor_is_scraped[OF h1 h2 h3 h4 h5 h6 h7 h8] h8 n
  have "\<exists>rest. program example_env example_world [untitled_site] =
         Some ([Sheets_values_get, Log_starting ''Example Auctions'',
                Log_scraping_page 1 ''https://example.com/auctions'',
                Http_get ''https://example.com/auctions''] @ rest, Completed)"
    by (simp add: untitled_site_def)
  with h1 h2 h3 h4 t show ?thesis by blast
qed

text \<open>The claim as it is worded fails at the descriptor without a title selector. In the
  example world (where a selector that is \<^verbatim>\<open>undefined\<close> finds nothing) the run goes through
  the startup, scrapes both pages and appends two rows whose title is empty.\<close>

theorem missing_selector_counterexample:
  "title_sel (site_selectors untitled_site) = None
   \<and> program example_env example_world [untitled_site] =
       Some ([Sheets_values_get, Log_starting ''Example Auctions'',
              Log_scraping_page 1 ''https://example.com/auctions'',
              Http_get ''https://example.com/auctions'',
              Log_scraping_page 2 ''https://example.com/auctions?page=2'',
              Http_get ''https://example.com/auctions?page=2'',
              Log_found 3 ''Example Auctions'',
              Sheets_values_append
                [[[], ''1 May'', ''York'', ''General'', [], ''https://example.com/lot/1''],
                 [[], ''2 May'', ''York'', ''Machinery'', [], ''https://example.com/auctions'']],
              Log_added 2], Completed)"
  by code_simp

text \<open>
  Claim C9, where the code differs. A descriptor that has no pagination object and a URL
  that is not empty: the walk throws a \<^verbatim>\<open>TypeError\<close> when it first evaluates the loop's
  condition, before any page is requested, and the run ends with that exception uncaught,
  the sites that follow not walked.
\<close>

theorem missing_pagination_throws:
  assumes "site_pagination s = None" and "site_url s \<noteq> []"
  shows "scrapeSite w s = Some ([Log_starting (site_name s)], Inl TypeError)
    \<and> (\<forall>evs H. getExistingEntries w = (evs, Inr H) \<longrightarrow>
          main w (s # sites) = Some (evs @ [Log_starting (site_name s)], Uncaught TypeError))"
proof -
  have t: "truthy (Some (site_url s))" using assms(2) by (simp add: truthy_def)
  have walk: "scrapeSite w s = Some ([Log_starting (site_name s)], Inl TypeError)"
    by (simp add: scrapeSite_def loop_crash[OF t assms(1)])
  then show ?thesis by (simp add: main_def)
qed

theorem missing_pagination_throws_witness:
  "site_pagination unpaginated_site = None \<and> site_url unpaginated_site \<noteq> []
   \<and> scrapeSite example_world unpaginated_site =
       Some ([Log_starting ''Example Auctions''], Inl TypeError)
   \<and> program example_env example_world [unpaginated_site, example_site] =
       Some ([Sheets_values_get, Log_starting ''Example Auctions''], Uncaught TypeError)"
proof -
  have a1: "site_pagination unpaginated_site = None"
    by (simp add: unpaginated_site_def)
  have a2: "site_url unpaginated_site \<noteq> []"
    by (simp add: unpaginated_site_def example_site_def SITES_def)
  have n: "site_name unpaginated_site = ''Example Auctions''"
    by (simp add: unpaginated_site_def example_site_def SITES_def)
  have p: "program example_env example_world [unpaginated_site, example_site] =
       Some ([Sheets_values_get, Log_starting ''Example Auctions''], Uncaught TypeError)"
    by code_simp
  from missing_pagination_throws[OF a1 a2, of example_world, THEN conjunct1] n
  have "scrapeSite example_world unpaginated_site =
       Some ([Log_starting ''Example Auctions''], Inl TypeError)"
    by simp
  with a1 a2 p show ?thesis by blast
qed

end
